theory Spec2Isabelle
  imports Main "HOL-Library.Word" "HOL-Library.Multiset"
begin

section \<open>Application descriptors and the environment (util/appinfo\_provider.hpp)\<close>

text \<open>
  A \<open>Gio::DesktopAppInfo\<close> is read through three getters only: \<open>get_id()\<close>,
  \<open>get_startup_wm_class()\<close> and \<open>get_icon()\<close> (a null icon is \<open>None\<close>).
  A null \<open>AppInfo\<close> reference is \<open>None :: AppInfo option\<close>.
\<close>

record AppInfo =
  get_id :: string
  get_startup_wm_class :: string
  get_icon :: "string option"

text \<open>
  Everything the resolver asks of the outside world: the Gio registry
  (\<open>DesktopAppInfo::create\<close>, \<open>create_from_filename\<close>, \<open>get_all\<close>), the files under
  \<open>/proc/<pid>\<close>, and the \<open>wm_class_hash_\<close> member of the \<open>AppInfoCacheService\<close>
  singleton.  \<open>proc_environ\<close> is the list of the NUL-separated entries that
  \<open>std::getline(f, data, '\0')\<close> yields (empty when the file cannot be opened);
  \<open>proc_attr_current\<close> is the first line of \<open>/proc/<pid>/attr/current\<close> (\<open>None\<close> when
  \<open>std::getline\<close> fails); \<open>flatpak_is_regular\<close> is \<open>fs::is_regular_file\<close> on
  \<open>/proc/<pid>/root/.flatpak-info\<close> (\<open>None\<close> when it throws);
  \<open>flatpak_app_name\<close> is the \<open>Application.name\<close> string of that key file
  (\<open>None\<close> when loading or reading it throws \<open>Glib::Error\<close>).
\<close>

record sys =
  desktop_create :: "string \<Rightarrow> AppInfo option"
  create_from_filename :: "string \<Rightarrow> AppInfo option"
  get_all :: "AppInfo list"
  proc_environ :: "32 word \<Rightarrow> string list"
  proc_attr_current :: "32 word \<Rightarrow> string option"
  flatpak_is_regular :: "32 word \<Rightarrow> bool option"
  flatpak_app_name :: "32 word \<Rightarrow> string option"
  wm_class_hash :: "string \<rightharpoonup> AppInfo"

definition starts_with :: "string \<Rightarrow> string \<Rightarrow> bool" where
  "starts_with data prefix = (take (length prefix) data = prefix)"

definition SNAP_PREFIX :: string where
  "SNAP_PREFIX = ''snap.''"

definition ENV_PREFIX :: string where
  "ENV_PREFIX = ''BAMF_DESKTOP_FILE_HINT=''"

text \<open>\<open>std::string::find(char)\<close>: the index of the first occurrence, \<open>npos\<close> (all ones) when
  there is none.\<close>

definition str_find :: "string \<Rightarrow> char \<Rightarrow> 64 word" where
  "str_find s c = (if c \<in> set s then word_of_nat (length (takeWhile (\<lambda>x. x \<noteq> c) s)) else - 1)"

text \<open>\<open>std::string::substr(pos, count)\<close> for \<open>pos \<le> size()\<close>, the only way it is called here.\<close>

definition substr :: "string \<Rightarrow> nat \<Rightarrow> 64 word \<Rightarrow> string" where
  "substr s pos n = take (unat n) (drop pos s)"

definition replace_char :: "char \<Rightarrow> char \<Rightarrow> string \<Rightarrow> string" where
  "replace_char old new s = map (\<lambda>c. if c = old then new else c) s"

definition get_app_info_from_snap :: "sys \<Rightarrow> 32 word \<Rightarrow> AppInfo option" where
  "get_app_info_from_snap s pid =
     (case proc_attr_current s pid of
        None \<Rightarrow> None
      | Some data \<Rightarrow>
          if \<not> starts_with data SNAP_PREFIX then None
          else
            let data1 = substr data (length SNAP_PREFIX)
                          (str_find data (CHR '' '') - word_of_nat (length SNAP_PREFIX));
                data2 = replace_char (CHR ''.'') (CHR ''_'') data1
            in desktop_create s (data2 @ ''.desktop''))"

fun bamf_scan :: "sys \<Rightarrow> string list \<Rightarrow> AppInfo option" where
  "bamf_scan s [] = None"
| "bamf_scan s (data # rest) =
     (if starts_with data ENV_PREFIX
      then create_from_filename s (drop (length ENV_PREFIX) data)
      else bamf_scan s rest)"

definition get_app_info_from_bamf_env :: "sys \<Rightarrow> 32 word \<Rightarrow> AppInfo option" where
  "get_app_info_from_bamf_env s pid = bamf_scan s (proc_environ s pid)"

definition get_app_info_from_flatpak :: "sys \<Rightarrow> 32 word \<Rightarrow> AppInfo option" where
  "get_app_info_from_flatpak s pid =
     (if flatpak_is_regular s pid = Some False then None
      else case flatpak_app_name s pid of
             None \<Rightarrow> None
           | Some appName \<Rightarrow> desktop_create s (appName @ ''.desktop''))"

subsection \<open>AppInfoCacheService\<close>

definition lookup :: "sys \<Rightarrow> string \<Rightarrow> AppInfo option" where
  "lookup s StartupWMClass = wm_class_hash s StartupWMClass"

text \<open>\<open>std::unordered_map::emplace\<close>: inserts only when the key is not yet in the map.\<close>

definition emplace :: "('k \<rightharpoonup> 'v) \<Rightarrow> 'k \<Rightarrow> 'v \<Rightarrow> ('k \<rightharpoonup> 'v)" where
  "emplace m k v = (case m k of None \<Rightarrow> m(k \<mapsto> v) | Some _ \<Rightarrow> m)"

datatype error = NullDereference

text \<open>
  The loop of \<open>load()\<close>: every element of \<open>get_all()\<close> is created again from its id and
  stored under its \<open>StartupWMClass\<close>.  \<open>desktop_info->get_startup_wm_class()\<close> on a null
  \<open>desktop_info\<close> is the error branch.
\<close>

fun load_loop :: "sys \<Rightarrow> AppInfo list \<Rightarrow> (string \<rightharpoonup> AppInfo) \<Rightarrow> error + (string \<rightharpoonup> AppInfo)" where
  "load_loop s [] m = Inr m"
| "load_loop s (info # rest) m =
     (case desktop_create s (get_id info) of
        None \<Rightarrow> Inl NullDereference
      | Some desktop_info \<Rightarrow>
          load_loop s rest (emplace m (get_startup_wm_class desktop_info) desktop_info))"

definition load :: "sys \<Rightarrow> error + sys" where
  "load s =
     (case load_loop s (get_all s) Map.empty of
        Inl e \<Rightarrow> Inl e
      | Inr m \<Rightarrow> Inr (s\<lparr>wm_class_hash := m\<rparr>))"

section \<open>Window identity (modules/sway/workspace\_tasks.cpp)\<close>

record WindowProperties =
  title :: string
  app_id :: string
  "instance" :: string
  pid :: "32 word"
  focused :: bool
  urgent :: bool
  visible :: bool

text \<open>\<open>std::tolower\<close> on a \<open>char\<close>, in the C locale: only \<open>A\<close>..\<open>Z\<close> change.\<close>

definition tolower :: "char \<Rightarrow> char" where
  "tolower c =
     (let n = (of_char c :: nat) in if 65 \<le> n \<and> n \<le> 90 then char_of (n + 32) else c)"

text \<open>
  The calls \<open>findInfo()\<close> makes to its collaborators, in the order it makes them.  The
  model returns this log next to the result, so that which strategies ran is part of
  what \<open>findInfo\<close> computes.
\<close>

datatype probe =
    CacheLookup string
  | DesktopCreate string
  | BamfEnv "32 word"
  | Snap "32 word"
  | Flatpak "32 word"

definition findInfo :: "sys \<Rightarrow> WindowProperties \<Rightarrow> AppInfo option \<times> probe list" where
  "findInfo s props =
     (let (info1, log1) =
            (if instance props \<noteq> []
             then (lookup s (instance props), [CacheLookup (instance props)])
             else (None, []))
      in if info1 \<noteq> None then (info1, log1)
      else
        let info2 = desktop_create s (app_id props @ ''.desktop'');
            log2 = log1 @ [DesktopCreate (app_id props @ ''.desktop'')]
        in if info2 \<noteq> None then (info2, log2)
        else
          let info3 = get_app_info_from_bamf_env s (pid props);
              log3 = log2 @ [BamfEnv (pid props)]
          in if info3 \<noteq> None then (info3, log3)
          else
            let info4 = get_app_info_from_snap s (pid props);
                log4 = log3 @ [Snap (pid props)]
            in if info4 \<noteq> None then (info4, log4)
            else
              let info5 = get_app_info_from_flatpak s (pid props);
                  log5 = log4 @ [Flatpak (pid props)]
              in if info5 \<noteq> None then (info5, log5)
              else
                let lower_app_id = map tolower (app_id props)
                in (desktop_create s (lower_app_id @ ''.desktop''),
                    log5 @ [DesktopCreate (lower_app_id @ ''.desktop'')]))"


record Window =
  id :: int
  resolved_app_id :: string
  props :: WindowProperties

text \<open>
  \<open>Window::update()\<close>, without the widget calls: the resolved identity is the id of the
  descriptor \<open>findInfo()\<close> returned, or \<open>props.app_id + ".desktop"\<close> when it returned null.
\<close>

definition Window_update :: "sys \<Rightarrow> Window \<Rightarrow> Window" where
  "Window_update s w =
     (let info = fst (findInfo s (Window.props w))
      in case info of
           Some i \<Rightarrow> w\<lparr>resolved_app_id := get_id i\<rparr>
         | None \<Rightarrow> w\<lparr>resolved_app_id := app_id (Window.props w) @ ''.desktop''\<rparr>)"

text \<open>The constructor: the members are initialised (a default \<open>std::string\<close> is empty),
  then \<open>update()\<close> runs.\<close>

definition Window_ctor :: "sys \<Rightarrow> int \<Rightarrow> WindowProperties \<Rightarrow> Window" where
  "Window_ctor s i p = Window_update s \<lparr>Window.id = i, resolved_app_id = [], props = p\<rparr>"

definition getResolvedAppId :: "Window \<Rightarrow> string" where
  "getResolvedAppId w = resolved_app_id w"

section \<open>Workspaces\<close>

record WorkspaceProperties =
  title :: string
  num :: int
  focused :: bool
  urgent :: bool
  visible :: bool

text \<open>
  \<open>windows\<close> is the vector of the struct.  \<open>content\<close> stands for the \<open>Gtk::Box content\<close>:
  the windows whose \<open>gbutton\<close> has been packed into it, in the order of the
  \<open>pack_end\<close> calls.
\<close>

record Workspace =
  id :: int
  props :: WorkspaceProperties
  windows :: "Window list"
  content :: "Window list"

text \<open>The loop of \<open>Workspace::update()\<close> over \<open>windows\<close>; \<open>props.urgent\<close> is only read.\<close>

definition Workspace_update :: "Workspace \<Rightarrow> Workspace" where
  "Workspace_update w =
     w\<lparr>Workspace.props :=
         fold (\<lambda>window p.
                 p\<lparr>WorkspaceProperties.focused :=
                      WorkspaceProperties.focused p \<or> WindowProperties.focused (Window.props window),
                    WorkspaceProperties.visible :=
                      WorkspaceProperties.visible p \<or> WindowProperties.visible (Window.props window)\<rparr>)
              (windows w) (Workspace.props w)\<rparr>"

definition Workspace_ctor :: "int \<Rightarrow> WorkspaceProperties \<Rightarrow> Workspace" where
  "Workspace_ctor i p =
     Workspace_update \<lparr>Workspace.id = i, props = p, windows = [], content = []\<rparr>"

text \<open>
  \<open>addWindow\<close>: the window is appended to \<open>windows\<close> first; \<open>repeated\<close> compares it with
  the elements of \<open>[begin, end - 1)\<close>; only the packing of its button depends on
  \<open>repeated\<close>.
\<close>

definition addWindow :: "sys \<Rightarrow> int \<Rightarrow> WindowProperties \<Rightarrow> Workspace \<Rightarrow> Workspace" where
  "addWindow s i p w =
     (let windows1 = windows w @ [Window_ctor s i p];
          repeated = list_ex (\<lambda>x. getResolvedAppId x = getResolvedAppId (last windows1))
                       (butlast windows1)
      in if \<not> repeated
         then w\<lparr>windows := windows1, content := content w @ [last windows1]\<rparr>
         else w\<lparr>windows := windows1\<rparr>)"

section \<open>The snapshot and the rebuild\<close>

text \<open>
  A node of the decoded \<open>GET_TREE\<close> reply, with the members the module reads, each at the
  type its \<open>asString\<close>/\<open>asInt\<close>/\<open>asUInt\<close>/\<open>asBool\<close> conversion yields.  \<open>app_id\<close> keeps
  the three cases the code tells apart: not a member, a null member, a string.
\<close>

datatype json_app_id = NotMember | JsonNull | JsonString string

record members =
  json_type :: string
  json_id :: int
  json_name :: string
  json_num :: int
  json_focused :: bool
  json_urgent :: bool
  json_visible :: bool
  json_app_id :: json_app_id
  json_class :: string
  json_instance :: string
  json_pid :: "32 word"

datatype node = Node members "node list" "node list"

definition WindowProperties_fromJson :: "members \<Rightarrow> WindowProperties" where
  "WindowProperties_fromJson data =
     (let (app_id1, instance1) =
            (case json_app_id data of
               JsonString a \<Rightarrow> (a, [])
             | _ \<Rightarrow> (json_class data, json_instance data))
      in \<lparr>WindowProperties.title = json_name data, app_id = app_id1, instance = instance1,
          pid = json_pid data, focused = json_focused data, urgent = json_urgent data,
          visible = json_visible data\<rparr>)"

definition WorkspaceProperties_fromJson :: "members \<Rightarrow> WorkspaceProperties" where
  "WorkspaceProperties_fromJson data =
     \<lparr>WorkspaceProperties.title = json_name data, num = json_num data,
      focused = json_focused data, urgent = json_urgent data, visible = json_visible data\<rparr>"

text \<open>\<open>workspaces_.back()->addWindow(...)\<close>, for a non-empty \<open>workspaces_\<close>.\<close>

definition addWindow_back :: "sys \<Rightarrow> int \<Rightarrow> WindowProperties \<Rightarrow> Workspace list \<Rightarrow> Workspace list" where
  "addWindow_back s i p workspaces = butlast workspaces @ [addWindow s i p (last workspaces)]"

fun buildTree :: "sys \<Rightarrow> node \<Rightarrow> Workspace list \<Rightarrow> Workspace list" where
  "buildTree s (Node node ns fs) workspaces =
     (if json_type node = ''root'' \<or> json_type node = ''output''
      then fold (buildTree s) fs (fold (buildTree s) ns workspaces)
      else if json_type node = ''workspace''
      then (if take 4 (WorkspaceProperties.title (WorkspaceProperties_fromJson node)) = ''__i3''
            then workspaces
            else fold (buildTree s) fs (fold (buildTree s) ns
                   (workspaces @ [Workspace_ctor (json_id node) (WorkspaceProperties_fromJson node)])))
      else if json_type node = ''con'' \<or> json_type node = ''floating_con''
      then (if json_app_id node \<noteq> NotMember
            then (if length workspaces > 0
                  then addWindow_back s (json_id node) (WindowProperties_fromJson node) workspaces
                  else workspaces)
            else fold (buildTree s) fs (fold (buildTree s) ns workspaces))
      else workspaces)"


text \<open>
  \<open>std::sort\<close> is a parameter of the rebuild.  What the C++ standard promises of it, for a
  comparison that is a strict weak ordering: the result is a rearrangement of the input
  in which no element is less than an earlier one.  The order of equivalent elements is
  left open.
\<close>

type_synonym 'a sort_fn = "('a \<Rightarrow> 'a \<Rightarrow> bool) \<Rightarrow> 'a list \<Rightarrow> 'a list"

definition strict_weak_order :: "('a \<Rightarrow> 'a \<Rightarrow> bool) \<Rightarrow> bool" where
  "strict_weak_order lt \<longleftrightarrow>
     (\<forall>a. \<not> lt a a) \<and>
     (\<forall>a b c. lt a b \<and> lt b c \<longrightarrow> lt a c) \<and>
     (\<forall>a b c. \<not> lt a b \<and> \<not> lt b c \<longrightarrow> \<not> lt a c)"

definition std_sort_contract :: "'a sort_fn \<Rightarrow> bool" where
  "std_sort_contract srt \<longleftrightarrow>
     (\<forall>lt xs. strict_weak_order lt \<longrightarrow>
        mset (srt lt xs) = mset xs \<and> sorted_wrt (\<lambda>a b. \<not> lt b a) (srt lt xs))"

definition num_less :: "Workspace \<Rightarrow> Workspace \<Rightarrow> bool" where
  "num_less a b = (num (Workspace.props a) < num (Workspace.props b))"

text \<open>
  \<open>WorkspaceTasksImpl::update()\<close> up to the widget packing: \<open>workspaces_\<close> is cleared,
  rebuilt from \<open>payload_\<close>, sorted, and every workspace is updated.
\<close>

definition update :: "Workspace sort_fn \<Rightarrow> sys \<Rightarrow> node \<Rightarrow> Workspace list" where
  "update srt s payload = map Workspace_update (srt num_less (buildTree s payload []))"

text \<open>An insertion sort that keeps the order of equivalent elements; it meets the
  contract.\<close>

fun ins :: "('a \<Rightarrow> 'a \<Rightarrow> bool) \<Rightarrow> 'a \<Rightarrow> 'a list \<Rightarrow> 'a list" where
  "ins lt x [] = [x]"
| "ins lt x (y # ys) = (if lt y x then y # ins lt x ys else x # y # ys)"

definition isort :: "'a sort_fn" where
  "isort lt xs = foldr (ins lt) xs []"

subsection \<open>\<open>std::sort\<close> as libstdc++ implements it\<close>

text \<open>
  The introsort of libstdc++ (\<open>bits/stl_algo.h\<close>), the library the module is built
  against with GCC: \<open>__sort\<close> runs \<open>__introsort_loop\<close> with depth limit
  \<open>2 * __lg(n)\<close> and then \<open>__final_insertion_sort\<close>; \<open>_S_threshold\<close> is 16.  A range
  \<open>[first, last)\<close> is a list, iterators are indices into it, \<open>lt\<close> is the comparison
  \<open>__comp\<close>.
\<close>

definition iter_swap :: "nat \<Rightarrow> nat \<Rightarrow> 'a list \<Rightarrow> 'a list" where
  "iter_swap i j xs = xs[i := xs ! j, j := xs ! i]"

definition move_median_to_first ::
  "('a \<Rightarrow> 'a \<Rightarrow> bool) \<Rightarrow> nat \<Rightarrow> nat \<Rightarrow> nat \<Rightarrow> nat \<Rightarrow> 'a list \<Rightarrow> 'a list" where
  "move_median_to_first lt result a b c xs =
     (if lt (xs ! a) (xs ! b)
      then (if lt (xs ! b) (xs ! c) then iter_swap result b xs
            else if lt (xs ! a) (xs ! c) then iter_swap result c xs
            else iter_swap result a xs)
      else if lt (xs ! a) (xs ! c) then iter_swap result a xs
      else if lt (xs ! b) (xs ! c) then iter_swap result c xs
      else iter_swap result b xs)"

text \<open>
  \<open>__unguarded_partition(first, last, pivot)\<close>: \<open>first1\<close> is where
  \<open>while (comp(first, pivot)) ++first\<close> stops, \<open>last1\<close> where \<open>--last\<close> followed by
  \<open>while (comp(pivot, last)) --last\<close> stops; if they have met \<open>first1\<close> is returned with the
  range, else the two elements are swapped and the loop goes on from \<open>first1 + 1\<close>.  (The
  scans of the library have no bound of their own; here they end with the list.)
\<close>

function unguarded_partition ::
  "('a \<Rightarrow> 'a \<Rightarrow> bool) \<Rightarrow> 'a list \<Rightarrow> nat \<Rightarrow> nat \<Rightarrow> nat \<Rightarrow> 'a list \<times> nat" where
  "unguarded_partition lt xs first0 last0 pivot =
     (let first1 = first0 + length (takeWhile (\<lambda>x. lt x (xs ! pivot)) (drop first0 xs));
          last1 = last0 - 1 - length (takeWhile (\<lambda>x. lt (xs ! pivot) x) (rev (take last0 xs)))
      in if \<not> first1 < last1 then (xs, first1)
         else unguarded_partition lt (iter_swap first1 last1 xs) (first1 + 1) last1 pivot)"
  by pat_completeness auto
termination
  by (relation "measure (\<lambda>(lt, xs, first0, last0, pivot). last0 - first0)") auto

definition unguarded_partition_pivot :: "('a \<Rightarrow> 'a \<Rightarrow> bool) \<Rightarrow> 'a list \<Rightarrow> 'a list \<times> nat" where
  "unguarded_partition_pivot lt xs =
     (let mid = length xs div 2;
          xs1 = move_median_to_first lt 0 1 mid (length xs - 1) xs
      in unguarded_partition lt xs1 1 (length xs) 0)"

text \<open>
  \<open>__introsort_loop\<close>: while the range is longer than 16, partition it, sort the part
  from the cut on by the recursive call and go on with the part before the cut, the
  depth limit one less each time.  With the depth limit used up the library heap-sorts
  the range (\<open>__partial_sort\<close>); that sort is the parameter \<open>partial_sort\<close>.
\<close>

fun introsort_loop :: "'a sort_fn \<Rightarrow> ('a \<Rightarrow> 'a \<Rightarrow> bool) \<Rightarrow> nat \<Rightarrow> 'a list \<Rightarrow> 'a list" where
  "introsort_loop partial_sort lt 0 xs =
     (if length xs > 16 then partial_sort lt xs else xs)"
| "introsort_loop partial_sort lt (Suc depth_limit) xs =
     (if length xs > 16
      then (let (ys, cut) = unguarded_partition_pivot lt xs
            in introsort_loop partial_sort lt depth_limit (take cut ys) @
               introsort_loop partial_sort lt depth_limit (drop cut ys))
      else xs)"

text \<open>
  \<open>__unguarded_linear_insert\<close>: \<open>v\<close> moves down past every element it is less than.
  \<open>linear_insert_down\<close> walks the elements before \<open>v\<close> from the nearest one on.
\<close>

fun linear_insert_down :: "('a \<Rightarrow> 'a \<Rightarrow> bool) \<Rightarrow> 'a \<Rightarrow> 'a list \<Rightarrow> 'a list" where
  "linear_insert_down lt v [] = [v]"
| "linear_insert_down lt v (next # below) =
     (if lt v next then next # linear_insert_down lt v below else v # next # below)"

definition unguarded_linear_insert :: "('a \<Rightarrow> 'a \<Rightarrow> bool) \<Rightarrow> 'a \<Rightarrow> 'a list \<Rightarrow> 'a list" where
  "unguarded_linear_insert lt v done_part = rev (linear_insert_down lt v (rev done_part))"

text \<open>\<open>__insertion_sort\<close>: an element less than the first one goes to the front, any
  other is inserted by \<open>__unguarded_linear_insert\<close>.\<close>

definition insertion_sort :: "('a \<Rightarrow> 'a \<Rightarrow> bool) \<Rightarrow> 'a list \<Rightarrow> 'a list" where
  "insertion_sort lt xs =
     (case xs of
        [] \<Rightarrow> []
      | x # rest \<Rightarrow>
          fold (\<lambda>v sorted1. if lt v (hd sorted1) then v # sorted1
                            else unguarded_linear_insert lt v sorted1)
               rest [x])"

definition unguarded_insertion_sort :: "('a \<Rightarrow> 'a \<Rightarrow> bool) \<Rightarrow> 'a list \<Rightarrow> 'a list \<Rightarrow> 'a list" where
  "unguarded_insertion_sort lt done_part xs = fold (unguarded_linear_insert lt) xs done_part"

definition final_insertion_sort :: "('a \<Rightarrow> 'a \<Rightarrow> bool) \<Rightarrow> 'a list \<Rightarrow> 'a list" where
  "final_insertion_sort lt xs =
     (if length xs > 16
      then unguarded_insertion_sort lt (insertion_sort lt (take 16 xs)) (drop 16 xs)
      else insertion_sort lt xs)"

text \<open>\<open>__lg\<close>: the floor of the binary logarithm.\<close>

fun lg :: "nat \<Rightarrow> nat" where
  "lg n = (if n < 2 then 0 else Suc (lg (n div 2)))"

definition libstdcxx_sort :: "'a sort_fn \<Rightarrow> 'a sort_fn" where
  "libstdcxx_sort partial_sort lt xs =
     (if xs \<noteq> []
      then final_insertion_sort lt (introsort_loop partial_sort lt (2 * lg (length xs)) xs)
      else xs)"

section \<open>Scrolling\<close>

text \<open>\<open>std::find_if\<close> as the distance from \<open>begin()\<close>; the length stands for \<open>end()\<close>.\<close>

definition find_if :: "('a \<Rightarrow> bool) \<Rightarrow> 'a list \<Rightarrow> nat" where
  "find_if P xs = length (takeWhile (\<lambda>x. \<not> P x) xs)"

text \<open>
  The subscript of \<open>workspaces_[(i + delta) % workspaces_.size()]\<close>.  \<open>i\<close> is an
  \<open>ssize_t\<close> and \<open>delta\<close> an \<open>int\<close>, so the sum is a signed 64-bit value; \<open>size()\<close> is a
  \<open>size_t\<close>, so the sum is converted to unsigned 64 bits and the remainder is the
  unsigned one.
\<close>

definition cycle_index :: "Workspace list \<Rightarrow> int \<Rightarrow> nat" where
  "cycle_index workspaces delta =
     (let i = (word_of_nat (find_if (\<lambda>w. WorkspaceProperties.focused (Workspace.props w)) workspaces)
                 :: 64 word)
      in unat ((i + word_of_int delta) mod word_of_nat (length workspaces)))"

datatype cycle_result = NoFocused | OutOfRange | activateWorkspace int

definition cycleWorkspace :: "Workspace list \<Rightarrow> int \<Rightarrow> cycle_result" where
  "cycleWorkspace workspaces delta =
     (if find_if (\<lambda>w. WorkspaceProperties.focused (Workspace.props w)) workspaces
           \<noteq> length workspaces
      then (if cycle_index workspaces delta < length workspaces
            then activateWorkspace (num (Workspace.props (workspaces ! cycle_index workspaces delta)))
            else OutOfRange)
      else NoFocused)"

section \<open>Notifications and snapshot requests\<close>

datatype ipc_type = IPC_COMMAND | IPC_GET_TREE | IPC_OTHER

record ipc_response =
  res_type :: ipc_type
  res_payload :: string

text \<open>
  The part of the module's state the handlers touch: \<open>payload_\<close>, the last parsed
  snapshot, and four counters of what has happened so far.  \<open>tree_requests\<close> counts the
  \<open>IPC_GET_TREE\<close> requests handed to the channel, \<open>tree_replies\<close> the \<open>IPC_GET_TREE\<close>
  responses handed to \<open>onCmd\<close>, \<open>dp_emits\<close> the \<open>parent_.dp.emit()\<close> calls and
  \<open>updates\<close> the runs of \<open>update()\<close>.  \<open>parse\<close> is \<open>parser_.parse\<close> (\<open>None\<close> when it
  throws).
\<close>

record WorkspaceTasksImpl =
  tree_requests :: nat
  tree_replies :: nat
  dp_emits :: nat
  updates :: nat
  payload_ :: "node option"

definition onCmd :: "(string \<Rightarrow> node option) \<Rightarrow> ipc_response \<Rightarrow> WorkspaceTasksImpl \<Rightarrow> WorkspaceTasksImpl" where
  "onCmd parse res st =
     (if res_type res = IPC_GET_TREE
      then (case parse (res_payload res) of
              None \<Rightarrow> st\<lparr>tree_replies := tree_replies st + 1\<rparr>
            | Some p \<Rightarrow> st\<lparr>tree_replies := tree_replies st + 1, payload_ := Some p,
                          dp_emits := dp_emits st + 1\<rparr>)
      else st)"

text \<open>What a call of \<open>sendCmd\<close> does, as seen by the module: it throws; it sends the
  request and returns with the response pending; or it sends the request and hands the
  response to \<open>onCmd\<close> before it returns.\<close>

datatype send_outcome = Throws | Pending | Replied ipc_response

text \<open>
  Modelled from the spec: \<open>Ipc::sendCmd\<close>, the compositor control channel
  (\<open>modules/sway/ipc/client.hpp\<close> is not among the sources).  The specification gives the
  channel as "request \<open>GET_TREE\<close>, decoded recursive node response", failing with a
  transport error, and has a request "sent, response pending" until "response
  arrival"; responses reach the module through \<open>signal_cmd\<close>, which the constructor
  connects to \<open>onCmd\<close>.  It does not say when the response is delivered, so the
  outcome of a call is a parameter.
\<close>

definition sendCmd ::
  "(string \<Rightarrow> node option) \<Rightarrow> send_outcome \<Rightarrow> ipc_type \<Rightarrow> WorkspaceTasksImpl \<Rightarrow>
     WorkspaceTasksImpl option" where
  "sendCmd parse outcome t st =
     (let sent = (if t = IPC_GET_TREE then st\<lparr>tree_requests := tree_requests st + 1\<rparr> else st)
      in case outcome of
           Throws \<Rightarrow> None
         | Pending \<Rightarrow> Some sent
         | Replied res \<Rightarrow> Some (onCmd parse res sent))"

text \<open>\<open>getTree()\<close>: the exception of \<open>sendCmd\<close> is caught and logged.\<close>

definition getTree ::
  "(string \<Rightarrow> node option) \<Rightarrow> send_outcome \<Rightarrow> WorkspaceTasksImpl \<Rightarrow> WorkspaceTasksImpl" where
  "getTree parse outcome st =
     (case sendCmd parse outcome IPC_GET_TREE st of None \<Rightarrow> st | Some st1 \<Rightarrow> st1)"

definition onEvent ::
  "(string \<Rightarrow> node option) \<Rightarrow> send_outcome \<Rightarrow> ipc_response \<Rightarrow> WorkspaceTasksImpl \<Rightarrow>
     WorkspaceTasksImpl" where
  "onEvent parse outcome res st = getTree parse outcome st"

definition WorkspaceTasksImpl_ctor ::
  "(string \<Rightarrow> node option) \<Rightarrow> send_outcome \<Rightarrow> WorkspaceTasksImpl" where
  "WorkspaceTasksImpl_ctor parse outcome =
     getTree parse outcome
       \<lparr>tree_requests = 0, tree_replies = 0, dp_emits = 0, updates = 0, payload_ = None\<rparr>"

text \<open>\<open>WorkspaceTasks::update()\<close>, run by the main loop for a \<open>dp\<close> emission: the model is
  rebuilt from \<open>payload_\<close> (the rebuild itself is \<open>update\<close> above).\<close>

definition WorkspaceTasks_update :: "WorkspaceTasksImpl \<Rightarrow> WorkspaceTasksImpl" where
  "WorkspaceTasks_update st = st\<lparr>updates := updates st + 1\<rparr>"

text \<open>
  Modelled from the spec: the state \<open>AwaitingSnapshot\<close>, "a full-tree request has been
  sent, response pending".  \<open>in_flight\<close> is the number of such requests: those handed
  to the channel whose response has not been handed to \<open>onCmd\<close>.
\<close>

definition in_flight :: "WorkspaceTasksImpl \<Rightarrow> nat" where
  "in_flight st = tree_requests st - tree_replies st"

text \<open>
  Modelled from the spec: the state \<open>Applying\<close>, "a response has arrived and is being
  parsed/merged into TreeModel", left "once the rebuilt model has been installed and a
  redisplay has been requested".  In the module the redisplay is requested by \<open>onCmd\<close>
  and the model is rebuilt by the \<open>update()\<close> that follows, so a response is being
  applied while an emission has not yet been followed by its \<open>update()\<close>.
\<close>

definition applying :: "WorkspaceTasksImpl \<Rightarrow> bool" where
  "applying st \<longleftrightarrow> updates st < dp_emits st"

section \<open>The strategy chain as the specification words it\<close>

text \<open>
  The specification describes the resolver as an ordered list of strategies, tried until
  the first one that returns a descriptor.  \<open>strategy_chain\<close> is that list (each
  strategy with the call it stands for), \<open>run_chain\<close> the iteration; both follow the
  specification, to be compared with \<open>findInfo\<close>.
\<close>

fun run_chain :: "(probe \<times> AppInfo option) list \<Rightarrow> AppInfo option \<times> probe list" where
  "run_chain [] = (None, [])"
| "run_chain ((label, result) # rest) =
     (case result of
        Some d \<Rightarrow> (Some d, [label])
      | None \<Rightarrow> (fst (run_chain rest), label # snd (run_chain rest)))"

definition strategy_chain :: "sys \<Rightarrow> WindowProperties \<Rightarrow> (probe \<times> AppInfo option) list" where
  "strategy_chain s p =
     (if instance p \<noteq> [] then [(CacheLookup (instance p), lookup s (instance p))] else []) @
     [(DesktopCreate (app_id p @ ''.desktop''), desktop_create s (app_id p @ ''.desktop'')),
      (BamfEnv (pid p), get_app_info_from_bamf_env s (pid p)),
      (Snap (pid p), get_app_info_from_snap s (pid p)),
      (Flatpak (pid p), get_app_info_from_flatpak s (pid p)),
      (DesktopCreate (map tolower (app_id p) @ ''.desktop''),
         desktop_create s (map tolower (app_id p) @ ''.desktop''))]"

text \<open>
  First-occurrence deduplication by resolved identity, as the specification describes the
  windows shown for a workspace: a window is kept unless an earlier one (or one of
  \<open>seen\<close>) has the same identity.
\<close>

fun keep_first :: "string list \<Rightarrow> Window list \<Rightarrow> Window list" where
  "keep_first seen [] = []"
| "keep_first seen (x # xs) =
     (if resolved_app_id x \<in> set seen then keep_first seen xs
      else x # keep_first (resolved_app_id x # seen) xs)"

text \<open>
  The subscript of \<open>cycleWorkspace\<close> as the claim words it: the focused index plus
  \<open>delta\<close>, modulo the workspace count, with the signed remainder of C++ (the quotient
  is truncated towards zero, so the remainder has the sign of the dividend).
\<close>

definition signed_rem :: "int \<Rightarrow> int \<Rightarrow> int" where
  "signed_rem a b = sgn a * (\<bar>a\<bar> mod \<bar>b\<bar>)"

definition claimed_index :: "Workspace list \<Rightarrow> int \<Rightarrow> int" where
  "claimed_index workspaces delta =
     signed_rem
       (int (find_if (\<lambda>w. WorkspaceProperties.focused (Workspace.props w)) workspaces) + delta)
       (int (length workspaces))"

section \<open>Example inputs\<close>

definition registry0 :: "AppInfo list" where
  "registry0 =
     [\<lparr>get_id = ''firefox.desktop'', get_startup_wm_class = ''firefox'', get_icon = Some ''firefox''\<rparr>,
      \<lparr>get_id = ''chrome-app1-Default.desktop'', get_startup_wm_class = ''app1'', get_icon = None\<rparr>,
      \<lparr>get_id = ''chrome-app1-Work.desktop'', get_startup_wm_class = ''app1'', get_icon = None\<rparr>,
      \<lparr>get_id = ''org.gnome.Nautilus.desktop'', get_startup_wm_class = [], get_icon = Some ''nautilus''\<rparr>]"

text \<open>A system with no readable \<open>/proc\<close> entries, before the cache is loaded.\<close>

definition boot_sys :: sys where
  "boot_sys =
     \<lparr>desktop_create = (\<lambda>i. List.find (\<lambda>d. get_id d = i) registry0),
      create_from_filename = (\<lambda>f. None),
      get_all = registry0,
      proc_environ = (\<lambda>p. []),
      proc_attr_current = (\<lambda>p. None),
      flatpak_is_regular = (\<lambda>p. Some False),
      flatpak_app_name = (\<lambda>p. None),
      wm_class_hash = Map.empty\<rparr>"

text \<open>The same system with the cache as \<open>load()\<close> leaves it.\<close>

definition sys0 :: sys where
  "sys0 = boot_sys\<lparr>wm_class_hash :=
            (\<lambda>k. List.find (\<lambda>d. get_startup_wm_class d = k) registry0)\<rparr>"

definition slack_props :: WindowProperties where
  "slack_props =
     \<lparr>WindowProperties.title = ''Slack'', app_id = ''Slack'', instance = ''app1'', pid = 4242,
      focused = False, urgent = False, visible = True\<rparr>"

definition empty_props :: WindowProperties where
  "empty_props =
     \<lparr>WindowProperties.title = [], app_id = [], instance = [], pid = 0,
      focused = False, urgent = False, visible = False\<rparr>"

definition blank :: "string \<Rightarrow> int \<Rightarrow> string \<Rightarrow> members" where
  "blank t i n =
     \<lparr>json_type = t, json_id = i, json_name = n, json_num = 0, json_focused = False,
      json_urgent = False, json_visible = False, json_app_id = NotMember, json_class = [],
      json_instance = [], json_pid = 0\<rparr>"

text \<open>The scratchpad workspace of the hidden output, holding one floating window.\<close>

definition scratch_node :: node where
  "scratch_node =
     Node ((blank ''workspace'' 3 ''__i3_scratch'')\<lparr>json_num := - 1\<rparr>) []
       [Node ((blank ''floating_con'' 4 ''KeePassXC'')\<lparr>json_app_id := JsonString ''keepassxc''\<rparr>) [] []]"

text \<open>
  A snapshot: the hidden output with the scratchpad, and an output with workspace \<open>2\<close>
  (two Firefox windows, the first focused and urgent, and an XWayland window of instance
  \<open>app1\<close>), followed by two empty workspaces both numbered 1.
\<close>

definition payload0 :: node where
  "payload0 =
     Node (blank ''root'' 1 ''root'')
       [Node (blank ''output'' 2 ''__i3'') [scratch_node] [],
        Node (blank ''output'' 5 ''eDP-1'')
          [Node ((blank ''workspace'' 6 ''2'')\<lparr>json_num := 2, json_visible := True\<rparr>)
             [Node ((blank ''con'' 7 ''Mozilla Firefox'')
                      \<lparr>json_app_id := JsonString ''firefox'', json_focused := True,
                       json_urgent := True, json_visible := True, json_pid := 100\<rparr>) [] [],
              Node ((blank ''con'' 8 ''Library'')
                      \<lparr>json_app_id := JsonString ''firefox'', json_pid := 100\<rparr>) [] [],
              Node ((blank ''con'' 9 ''Slack'')
                      \<lparr>json_app_id := JsonNull, json_class := ''Slack'',
                       json_instance := ''app1'', json_pid := 4242\<rparr>) [] []]
             [],
           Node ((blank ''workspace'' 10 ''1'')\<lparr>json_num := 1\<rparr>) [] [],
           Node ((blank ''workspace'' 11 ''1:mail'')\<lparr>json_num := 1\<rparr>) [] []]
          []]
       []"

text \<open>Three workspaces, the first of them focused.\<close>

definition three_workspaces :: "Workspace list" where
  "three_workspaces =
     [Workspace_ctor 10 \<lparr>WorkspaceProperties.title = ''1'', num = 1, focused = True, urgent = False,
                         visible = True\<rparr>,
      Workspace_ctor 11 \<lparr>WorkspaceProperties.title = ''2'', num = 2, focused = False, urgent = False,
                         visible = False\<rparr>,
      Workspace_ctor 12 \<lparr>WorkspaceProperties.title = ''3'', num = 3, focused = False, urgent = False,
                         visible = False\<rparr>]"

text \<open>Seven workspaces, the first of them focused.\<close>

definition seven_workspaces :: "Workspace list" where
  "seven_workspaces =
     map (\<lambda>i. Workspace_ctor (10 + i)
                 \<lparr>WorkspaceProperties.title = ''ws'', num = i, focused = (i = 1), urgent = False,
                  visible = (i = 1)\<rparr>)
       [1, 2, 3, 4, 5, 6, 7]"

text \<open>A snapshot with seventeen named workspaces; sway gives a workspace whose name has no
  number the \<open>num\<close> -1.\<close>

definition payload17 :: node where
  "payload17 =
     Node (blank ''root'' 1 ''root'')
       [Node (blank ''output'' 5 ''eDP-1'')
          (map (\<lambda>i. Node ((blank ''workspace'' i ''term'')\<lparr>json_num := - 1\<rparr>) [] [])
             [21, 22, 23, 24, 25, 26, 27, 28, 29, 30, 31, 32, 33, 34, 35, 36, 37])
          []]
       []"

text \<open>A \<open>GET_TREE\<close> response, a parser that decodes it to the example snapshot, and a
  window event.\<close>

definition tree_reply :: ipc_response where
  "tree_reply = \<lparr>res_type = IPC_GET_TREE, res_payload = ''{\"type\": \"root\"}''\<rparr>"

definition parse0 :: "string \<Rightarrow> node option" where
  "parse0 text = (if text = res_payload tree_reply then Some payload0 else None)"

definition window_event :: ipc_response where
  "window_event = \<lparr>res_type = IPC_OTHER, res_payload = ''{\"change\": \"focus\"}''\<rparr>"

section \<open>Identity resolution\<close>

lemma findInfo_chain: "findInfo s p = run_chain (strategy_chain s p)"
  by (auto simp: findInfo_def strategy_chain_def Let_def split: option.splits)

lemma run_chain_hit:
  "run_chain c = (Some d, tr) \<Longrightarrow>
     \<exists>n < length c. tr = map fst (take (Suc n) c) \<and> snd (c ! n) = Some d \<and>
       (\<forall>k < n. snd (c ! k) = None)"
proof (induction c arbitrary: tr)
  case Nil
  then show ?case by simp
next
  case (Cons a c)
  obtain l r where a: "a = (l, r)" by (cases a)
  show ?case
  proof (cases r)
    case (Some d')
    with Cons.prems a show ?thesis by (intro exI[of _ 0]) auto
  next
    case None
    with Cons.prems a have rest: "run_chain c = (Some d, tl tr)" and tr: "tr = l # tl tr"
      by (auto simp: prod_eq_iff)
    from Cons.IH[OF rest] obtain n where n: "n < length c"
      "tl tr = map fst (take (Suc n) c)" "snd (c ! n) = Some d" "\<forall>k<n. snd (c ! k) = None"
      by blast
    show ?thesis
    proof (intro exI[of _ "Suc n"] conjI allI impI)
      show "Suc n < length (a # c)" using n by simp
      show "tr = map fst (take (Suc (Suc n)) (a # c))"
        using n tr a by (metis fst_conv list.simps(9) take_Suc_Cons)
      show "snd ((a # c) ! Suc n) = Some d" using n by simp
      fix k
      assume "k < Suc n"
      then show "snd ((a # c) ! k) = None"
        using n a None by (cases k) auto
    qed
  qed
qed

lemma run_chain_miss:
  "run_chain c = (None, tr) \<Longrightarrow> tr = map fst c \<and> (\<forall>x \<in> set c. snd x = None)"
  by (induction c arbitrary: tr) (force split: option.splits simp: prod_eq_iff)+

lemma findInfo_empty_props_miss: "fst (findInfo sys0 empty_props) = None"
  by (simp add: findInfo_def empty_props_def sys0_def boot_sys_def registry0_def
      get_app_info_from_bamf_env_def get_app_info_from_snap_def get_app_info_from_flatpak_def)

text \<open>
  C1.  For every window, \<open>findInfo\<close> is the iteration of the six strategies in the
  order cache lookup by the non-empty instance, descriptor \<open>appId + ".desktop"\<close>, BAMF
  environment probe, snap probe, flatpak probe, descriptor of the lowercased \<open>appId\<close>;
  the calls it makes are the strategies up to and including the first that returns a
  descriptor, every earlier one having missed, and all of them when all miss.  A window
  whose non-empty instance is a key of the cache resolves from the cache lookup alone.
\<close>

theorem findInfo_ordered_chain:
  "findInfo s p = run_chain (strategy_chain s p) \<and>
   (instance p \<noteq> [] \<and> wm_class_hash s (instance p) = Some d \<longrightarrow>
      findInfo s p = (Some d, [CacheLookup (instance p)])) \<and>
   (fst (findInfo s p) = Some d \<longrightarrow>
      (\<exists>n < length (strategy_chain s p).
         snd (findInfo s p) = map fst (take (Suc n) (strategy_chain s p)) \<and>
         snd (strategy_chain s p ! n) = Some d \<and>
         (\<forall>k < n. snd (strategy_chain s p ! k) = None))) \<and>
   (fst (findInfo s p) = None \<longrightarrow>
      snd (findInfo s p) = map fst (strategy_chain s p) \<and>
      (\<forall>x \<in> set (strategy_chain s p). snd x = None))"
proof (intro conjI impI)
  show "findInfo s p = run_chain (strategy_chain s p)" by (rule findInfo_chain)
next
  assume "instance p \<noteq> [] \<and> wm_class_hash s (instance p) = Some d"
  then show "findInfo s p = (Some d, [CacheLookup (instance p)])"
    by (simp add: findInfo_def lookup_def)
next
  assume "fst (findInfo s p) = Some d"
  then have "run_chain (strategy_chain s p) = (Some d, snd (findInfo s p))"
    by (simp add: findInfo_chain prod_eq_iff)
  from run_chain_hit[OF this]
  show "\<exists>n < length (strategy_chain s p).
         snd (findInfo s p) = map fst (take (Suc n) (strategy_chain s p)) \<and>
         snd (strategy_chain s p ! n) = Some d \<and>
         (\<forall>k < n. snd (strategy_chain s p ! k) = None)" .
next
  assume "fst (findInfo s p) = None"
  then have "run_chain (strategy_chain s p) = (None, snd (findInfo s p))"
    by (simp add: findInfo_chain prod_eq_iff)
  from run_chain_miss[OF this]
  show "snd (findInfo s p) = map fst (strategy_chain s p)"
    and "\<forall>x \<in> set (strategy_chain s p). snd x = None" by simp_all
qed

theorem findInfo_ordered_chain_witness:
  "instance slack_props \<noteq> [] \<and>
   wm_class_hash sys0 (instance slack_props) = Some (registry0 ! 1) \<and>
   findInfo sys0 slack_props = (Some (registry0 ! 1), [CacheLookup ''app1'']) \<and>
   fst (findInfo sys0 empty_props) = None \<and>
   snd (findInfo sys0 empty_props) =
     [DesktopCreate ''.desktop'', BamfEnv 0, Snap 0, Flatpak 0, DesktopCreate ''.desktop'']"
proof -
  have h: "instance slack_props \<noteq> [] \<and>
           wm_class_hash sys0 (instance slack_props) = Some (registry0 ! 1)"
    by (simp add: slack_props_def sys0_def registry0_def)
  note m = findInfo_empty_props_miss
  from findInfo_ordered_chain[of sys0 slack_props "registry0 ! 1"] h
  have 1: "findInfo sys0 slack_props = (Some (registry0 ! 1), [CacheLookup (instance slack_props)])"
    by blast
  from findInfo_ordered_chain[of sys0 empty_props "registry0 ! 1"] m
  have 2: "snd (findInfo sys0 empty_props) = map fst (strategy_chain sys0 empty_props)"
    by blast
  show ?thesis
    using h m 1 2 by (simp add: strategy_chain_def empty_props_def slack_props_def)
qed

text \<open>
  C2.  A constructed window always carries a resolved identity: the id of the descriptor
  \<open>findInfo\<close> returned, and, when every strategy missed, \<open>props.app_id\<close> followed by
  \<open>".desktop"\<close>, which is never the empty string.  This holds for every
  \<open>WindowProperties\<close>, the empty \<open>app_id\<close> and pid 0 included.
\<close>

theorem Window_resolved_always:
  "resolved_app_id (Window_ctor s i p) =
     (case fst (findInfo s p) of Some d \<Rightarrow> get_id d | None \<Rightarrow> app_id p @ ''.desktop'') \<and>
   (fst (findInfo s p) = None \<longrightarrow>
      resolved_app_id (Window_ctor s i p) = app_id p @ ''.desktop'' \<and>
      resolved_app_id (Window_ctor s i p) \<noteq> []) \<and>
   Window.id (Window_ctor s i p) = i \<and> Window.props (Window_ctor s i p) = p"
  by (simp add: Window_ctor_def Window_update_def split: option.splits)

theorem Window_resolved_always_witness:
  "app_id empty_props = [] \<and> pid empty_props = 0 \<and>
   fst (findInfo sys0 empty_props) = None \<and>
   resolved_app_id (Window_ctor sys0 7 empty_props) = ''.desktop''"
proof -
  note m = findInfo_empty_props_miss
  from Window_resolved_always[of sys0 7 empty_props] m
  have "resolved_app_id (Window_ctor sys0 7 empty_props) = app_id empty_props @ ''.desktop''"
    by blast
  then show ?thesis using m by (simp add: empty_props_def)
qed

section \<open>The application cache\<close>

lemma fold_emplace:
  "fold (\<lambda>d m. emplace m (get_startup_wm_class d) d) ds m k =
     (case m k of Some v \<Rightarrow> Some v | None \<Rightarrow> List.find (\<lambda>d. get_startup_wm_class d = k) ds)"
  by (induction ds arbitrary: m) (auto simp: emplace_def split: option.splits)

lemma load_loop_those:
  "load_loop s xs m =
     (case those (map (\<lambda>info. desktop_create s (get_id info)) xs) of
        None \<Rightarrow> Inl NullDereference
      | Some ds \<Rightarrow> Inr (fold (\<lambda>d m. emplace m (get_startup_wm_class d) d) ds m))"
  by (induction xs arbitrary: m) (auto split: option.splits)

lemma those_boot_sys:
  "those (map (\<lambda>info. desktop_create boot_sys (get_id info)) (get_all boot_sys)) = Some registry0"
  by (simp add: boot_sys_def registry0_def)

text \<open>
  C8, as the code has it.  \<open>load()\<close> empties the map and stores every descriptor of the
  registry under its \<open>StartupWMClass\<close>, the empty one included; \<open>emplace\<close> leaves an
  existing entry alone, so each key holds the first descriptor of the registry with
  that key.  The map has one descriptor per key.
\<close>

theorem load_first_writer_wins:
  "load s =
     (case those (map (\<lambda>info. desktop_create s (get_id info)) (get_all s)) of
        None \<Rightarrow> Inl NullDereference
      | Some ds \<Rightarrow>
          Inr (s\<lparr>wm_class_hash := (\<lambda>k. List.find (\<lambda>d. get_startup_wm_class d = k) ds)\<rparr>))"
proof -
  have h: "fold (\<lambda>d m. emplace m (get_startup_wm_class d) d) ds Map.empty
          = (\<lambda>k. List.find (\<lambda>d. get_startup_wm_class d = k) ds)" for ds
    by (rule ext) (simp add: fold_emplace)
  show ?thesis
    by (simp add: load_def load_loop_those h split: option.splits)
qed

theorem load_first_writer_wins_witness:
  "load boot_sys = Inr sys0 \<and>
   wm_class_hash sys0 ''app1'' = Some (registry0 ! 1) \<and>
   wm_class_hash sys0 [] = Some (registry0 ! 3)"
  using load_first_writer_wins[of boot_sys]
  by (simp add: those_boot_sys sys0_def) (simp add: boot_sys_def registry0_def)

text \<open>
  The claim fails on a registry with two descriptors of class \<open>app1\<close> and one with an
  empty class: the cache holds the first \<open>app1\<close> descriptor, not the last, and it has an
  entry under the empty key.
\<close>

theorem load_last_writer_counterexample:
  "(case load boot_sys of
      Inl e \<Rightarrow> False
    | Inr s \<Rightarrow>
        get_startup_wm_class (registry0 ! 1) = ''app1'' \<and>
        get_startup_wm_class (registry0 ! 2) = ''app1'' \<and>
        wm_class_hash s ''app1'' = Some (registry0 ! 1) \<and>
        wm_class_hash s ''app1'' \<noteq> Some (registry0 ! 2) \<and>
        get_startup_wm_class (registry0 ! 3) = [] \<and>
        wm_class_hash s [] = Some (registry0 ! 3))"
  by (simp add: load_def boot_sys_def registry0_def emplace_def)

section \<open>Sorting and the traversal\<close>

lemma mset_ins: "mset (ins lt x ys) = add_mset x (mset ys)"
  by (induction ys) auto

lemma set_ins: "set (ins lt x ys) = insert x (set ys)"
  by (induction ys) auto

lemma sorted_ins:
  assumes "strict_weak_order lt"
  shows "sorted_wrt (\<lambda>a b. \<not> lt b a) ys \<Longrightarrow> sorted_wrt (\<lambda>a b. \<not> lt b a) (ins lt x ys)"
proof (induction ys)
  case Nil
  then show ?case by simp
next
  case (Cons y ys)
  from assms have asym: "\<And>a b. lt a b \<Longrightarrow> \<not> lt b a"
    and ntrans: "\<And>a b c. \<not> lt a b \<Longrightarrow> \<not> lt b c \<Longrightarrow> \<not> lt a c"
    unfolding strict_weak_order_def by blast+
  show ?case
  proof (cases "lt y x")
    case True
    with Cons asym show ?thesis by (auto simp: set_ins)
  next
    case False
    with Cons ntrans show ?thesis by auto
  qed
qed

lemma isort_contract: "std_sort_contract isort"
proof -
  have m: "mset (isort lt xs) = mset xs" for lt :: "'a \<Rightarrow> 'a \<Rightarrow> bool" and xs
    by (induction xs) (simp_all add: isort_def mset_ins)
  have s: "sorted_wrt (\<lambda>a b. \<not> lt b a) (isort lt xs)"
    if "strict_weak_order lt" for lt :: "'a \<Rightarrow> 'a \<Rightarrow> bool" and xs
    by (induction xs) (simp_all add: isort_def sorted_ins[OF that])
  show ?thesis unfolding std_sort_contract_def using m s by blast
qed

lemma iter_swap_mset:
  "i < length xs \<Longrightarrow> j < length xs \<Longrightarrow> mset (iter_swap i j xs) = mset xs"
  by (simp add: iter_swap_def mset_swap)

lemma iter_swap_length: "length (iter_swap i j xs) = length xs"
  by (simp add: iter_swap_def)

lemma move_median_mset:
  assumes "result < length xs" "a < length xs" "b < length xs" "c < length xs"
  shows "mset (move_median_to_first lt result a b c xs) = mset xs"
    and "length (move_median_to_first lt result a b c xs) = length xs"
  using assms by (simp_all add: move_median_to_first_def iter_swap_mset iter_swap_length)

lemma unguarded_partition_mset:
  "last0 \<le> length xs \<Longrightarrow>
     mset (fst (unguarded_partition lt xs first0 last0 pivot)) = mset xs \<and>
     length (fst (unguarded_partition lt xs first0 last0 pivot)) = length xs"
proof (induction lt xs first0 last0 pivot rule: unguarded_partition.induct)
  case (1 lt xs first0 last0 pivot)
  let ?f = "first0 + length (takeWhile (\<lambda>x. lt x (xs ! pivot)) (drop first0 xs))"
  let ?l = "last0 - 1 - length (takeWhile (\<lambda>x. lt (xs ! pivot) x) (rev (take last0 xs)))"
  show ?case
  proof (cases "?f < ?l")
    case False
    then show ?thesis by (subst (1 2) unguarded_partition.simps) (simp add: Let_def)
  next
    case True
    with "1.prems" have r: "?f < length xs" "?l < length xs" by linarith+
    have "?l \<le> length (iter_swap ?f ?l xs)" using r by (simp add: iter_swap_length)
    from "1.IH"[OF refl refl _ this] True
    have "mset (fst (unguarded_partition lt (iter_swap ?f ?l xs) (?f + 1) ?l pivot)) = mset xs \<and>
          length (fst (unguarded_partition lt (iter_swap ?f ?l xs) (?f + 1) ?l pivot)) = length xs"
      using r by (simp add: iter_swap_mset iter_swap_length)
    with True show ?thesis by (subst (1 2) unguarded_partition.simps) (simp add: Let_def)
  qed
qed

lemma unguarded_partition_pivot_mset:
  assumes "16 < length xs"
  shows "mset (fst (unguarded_partition_pivot lt xs)) = mset xs"
proof -
  let ?m = "move_median_to_first lt 0 1 (length xs div 2) (length xs - 1) xs"
  have i: "0 < length xs" "1 < length xs" "length xs div 2 < length xs" "length xs - 1 < length xs"
    using assms by auto
  have m: "mset ?m = mset xs" "length ?m = length xs"
    by (rule move_median_mset[OF i])+
  from unguarded_partition_mset[of "length xs" ?m lt 1 0] m
  show ?thesis by (simp add: unguarded_partition_pivot_def Let_def)
qed

lemma introsort_loop_mset:
  assumes "std_sort_contract partial_sort" "strict_weak_order lt"
  shows "mset (introsort_loop partial_sort lt depth_limit xs) = mset xs"
proof (induction depth_limit arbitrary: xs)
  case 0
  from assms show ?case by (simp add: std_sort_contract_def)
next
  case (Suc d)
  show ?case
  proof (cases "16 < length xs")
    case False
    then show ?thesis by simp
  next
    case True
    obtain ys cut where u: "unguarded_partition_pivot lt xs = (ys, cut)"
      by (cases "unguarded_partition_pivot lt xs")
    with unguarded_partition_pivot_mset[OF True, of lt] have "mset ys = mset xs" by simp
    moreover have "mset (take cut ys) + mset (drop cut ys) = mset ys"
      by (metis append_take_drop_id mset_append)
    ultimately show ?thesis using True u by (simp add: Suc)
  qed
qed

lemma linear_insert_down_mset: "mset (linear_insert_down lt v xs) = add_mset v (mset xs)"
  by (induction xs) auto

lemma linear_insert_down_set: "set (linear_insert_down lt v xs) = insert v (set xs)"
  by (induction xs) auto

lemma linear_insert_down_sorted:
  assumes "strict_weak_order lt"
  shows "sorted_wrt (\<lambda>a b. \<not> lt a b) xs \<Longrightarrow> sorted_wrt (\<lambda>a b. \<not> lt a b) (linear_insert_down lt v xs)"
proof (induction xs)
  case Nil
  then show ?case by simp
next
  case (Cons x xs)
  from assms have asym: "\<And>a b. lt a b \<Longrightarrow> \<not> lt b a"
    and ntrans: "\<And>a b c. \<not> lt a b \<Longrightarrow> \<not> lt b c \<Longrightarrow> \<not> lt a c"
    unfolding strict_weak_order_def by blast+
  show ?case
  proof (cases "lt v x")
    case True
    with Cons asym show ?thesis by (auto simp: linear_insert_down_set)
  next
    case False
    with Cons ntrans show ?thesis by auto
  qed
qed

lemma unguarded_linear_insert_sorted:
  assumes "strict_weak_order lt" "sorted_wrt (\<lambda>a b. \<not> lt b a) xs"
  shows "sorted_wrt (\<lambda>a b. \<not> lt b a) (unguarded_linear_insert lt v xs)"
    and "mset (unguarded_linear_insert lt v xs) = add_mset v (mset xs)"
proof -
  from assms(2) have "sorted_wrt (\<lambda>a b. \<not> lt a b) (rev xs)" by (simp add: sorted_wrt_rev)
  from linear_insert_down_sorted[OF assms(1) this, of v]
  show "sorted_wrt (\<lambda>a b. \<not> lt b a) (unguarded_linear_insert lt v xs)"
    by (simp add: unguarded_linear_insert_def sorted_wrt_rev)
  show "mset (unguarded_linear_insert lt v xs) = add_mset v (mset xs)"
    by (simp add: unguarded_linear_insert_def linear_insert_down_mset)
qed

lemma insertion_step_sorted:
  fixes v :: 'a
  assumes swo: "strict_weak_order lt" and s: "sorted_wrt (\<lambda>a b. \<not> lt b a) acc" and ne: "acc \<noteq> []"
    and r_def: "r = (if lt v (hd acc) then v # acc else unguarded_linear_insert lt v acc)"
  shows "sorted_wrt (\<lambda>a b. \<not> lt b a) r \<and> mset r = add_mset v (mset acc) \<and> r \<noteq> []"
proof (cases "lt v (hd acc)")
  case True
  from swo have asym: "\<And>a b. lt a b \<Longrightarrow> \<not> lt b a"
    and trans: "\<And>a b c. lt a b \<Longrightarrow> lt b c \<Longrightarrow> lt a c"
    unfolding strict_weak_order_def by blast+
  obtain h t where acc: "acc = h # t" using ne by (cases acc) auto
  have "\<not> lt z v" if "z \<in> set acc" for z
  proof
    assume "lt z v"
    with True acc have "lt z h" using trans by auto
    with that acc s True asym show False by auto
  qed
  with True s show ?thesis by (simp add: r_def)
next
  case False
  from unguarded_linear_insert_sorted[OF swo s, of v] False
  show ?thesis by (auto simp: r_def)
qed

lemma insertion_sort_sorted:
  assumes swo: "strict_weak_order lt"
  shows "sorted_wrt (\<lambda>a b. \<not> lt b a) (insertion_sort lt xs) \<and> mset (insertion_sort lt xs) = mset xs"
proof (cases xs)
  case Nil
  then show ?thesis by (simp add: insertion_sort_def)
next
  case (Cons x rest)
  let ?step = "\<lambda>v sorted1. if lt v (hd sorted1) then v # sorted1
                              else unguarded_linear_insert lt v sorted1"
  have "sorted_wrt (\<lambda>a b. \<not> lt b a) acc \<Longrightarrow> acc \<noteq> [] \<Longrightarrow>
        sorted_wrt (\<lambda>a b. \<not> lt b a) (fold ?step ys acc) \<and>
        mset (fold ?step ys acc) = mset ys + mset acc" for ys acc
  proof (induction ys arbitrary: acc)
    case Nil
    then show ?case by simp
  next
    case (Cons y ys)
    from insertion_step_sorted[OF swo Cons.prems refl, of y]
    have st: "sorted_wrt (\<lambda>a b. \<not> lt b a) (?step y acc)" "mset (?step y acc) = add_mset y (mset acc)"
      "?step y acc \<noteq> []" by auto
    from Cons.IH[OF st(1) st(3)] st(2) show ?case by simp
  qed
  from this[of "[x]" rest] Cons show ?thesis by (simp add: insertion_sort_def)
qed

lemma final_insertion_sort_sorted:
  assumes swo: "strict_weak_order lt"
  shows "sorted_wrt (\<lambda>a b. \<not> lt b a) (final_insertion_sort lt xs) \<and>
         mset (final_insertion_sort lt xs) = mset xs"
proof -
  have u: "sorted_wrt (\<lambda>a b. \<not> lt b a) acc \<Longrightarrow>
        sorted_wrt (\<lambda>a b. \<not> lt b a) (unguarded_insertion_sort lt acc ys) \<and>
        mset (unguarded_insertion_sort lt acc ys) = mset ys + mset acc" for ys acc
    unfolding unguarded_insertion_sort_def
  proof (induction ys arbitrary: acc)
    case Nil
    then show ?case by simp
  next
    case (Cons y ys)
    from unguarded_linear_insert_sorted[OF swo Cons.prems, of y] Cons.IH[of "unguarded_linear_insert lt y acc"]
    show ?case by simp
  qed
  have "mset (drop 16 xs) + mset (take 16 xs) = mset xs"
    by (metis append_take_drop_id mset_append add.commute)
  with u[of "insertion_sort lt (take 16 xs)" "drop 16 xs"] insertion_sort_sorted[OF swo]
  show ?thesis by (simp add: final_insertion_sort_def)
qed

lemma libstdcxx_sort_contract:
  assumes "std_sort_contract partial_sort"
  shows "std_sort_contract (libstdcxx_sort partial_sort)"
  unfolding std_sort_contract_def
proof (intro allI impI)
  fix lt :: "'a \<Rightarrow> 'a \<Rightarrow> bool" and xs
  assume swo: "strict_weak_order lt"
  let ?ys = "introsort_loop partial_sort lt (2 * lg (length xs)) xs"
  have e: "libstdcxx_sort partial_sort lt xs = (if xs \<noteq> [] then final_insertion_sort lt ?ys else xs)"
    by (simp only: libstdcxx_sort_def)
  show "mset (libstdcxx_sort partial_sort lt xs) = mset xs \<and>
        sorted_wrt (\<lambda>a b. \<not> lt b a) (libstdcxx_sort partial_sort lt xs)"
  proof (cases "xs = []")
    case True
    with e show ?thesis by simp
  next
    case False
    with e have "libstdcxx_sort partial_sort lt xs = final_insertion_sort lt ?ys" by simp
    with final_insertion_sort_sorted[OF swo, of ?ys] introsort_loop_mset[OF assms swo, of "2 * lg (length xs)" xs]
    show ?thesis by simp
  qed
qed

lemma num_less_swo: "strict_weak_order num_less"
  by (auto simp: strict_weak_order_def num_less_def)

lemma Workspace_update_fields:
  "Workspace.id (Workspace_update w) = Workspace.id w"
  "windows (Workspace_update w) = windows w"
  "content (Workspace_update w) = content w"
  by (simp_all add: Workspace_update_def)

lemma fold_flags:
  "fold (\<lambda>window p.
           p\<lparr>WorkspaceProperties.focused :=
                WorkspaceProperties.focused p \<or> WindowProperties.focused (Window.props window),
              WorkspaceProperties.visible :=
                WorkspaceProperties.visible p \<or> WindowProperties.visible (Window.props window)\<rparr>)
        ws p =
   p\<lparr>WorkspaceProperties.focused :=
        WorkspaceProperties.focused p \<or> list_ex (\<lambda>x. WindowProperties.focused (Window.props x)) ws,
      WorkspaceProperties.visible :=
        WorkspaceProperties.visible p \<or> list_ex (\<lambda>x. WindowProperties.visible (Window.props x)) ws\<rparr>"
  by (induction ws arbitrary: p) (auto)

lemma Workspace_update_props:
  "Workspace.props (Workspace_update w) =
     (Workspace.props w)\<lparr>WorkspaceProperties.focused :=
        WorkspaceProperties.focused (Workspace.props w) \<or> list_ex (\<lambda>x. WindowProperties.focused (Window.props x)) (windows w),
      WorkspaceProperties.visible :=
        WorkspaceProperties.visible (Workspace.props w) \<or> list_ex (\<lambda>x. WindowProperties.visible (Window.props x)) (windows w)\<rparr>"
  by (simp add: Workspace_update_def fold_flags)

lemma fold_inv:
  assumes "\<And>x a. x \<in> set xs \<Longrightarrow> Q a \<Longrightarrow> Q (f x a)" and "Q a"
  shows "Q (fold f xs a)"
  using assms by (induction xs arbitrary: a) auto

lemma addWindow_back_all:
  assumes "\<And>w. P w \<Longrightarrow> P (addWindow s i p w)" and "list_all P workspaces" and "workspaces \<noteq> []"
  shows "list_all P (addWindow_back s i p workspaces)"
  using assms by (auto simp: addWindow_back_def list_all_iff dest: in_set_butlastD)

lemma buildTree_all:
  assumes ctor: "\<And>i p. take 4 (WorkspaceProperties.title p) \<noteq> ''__i3'' \<Longrightarrow> P (Workspace_ctor i p)"
    and add: "\<And>i p w. P w \<Longrightarrow> P (addWindow s i p w)"
  shows "list_all P workspaces \<Longrightarrow> list_all P (buildTree s n workspaces)"
  using add
proof (induction s n workspaces rule: buildTree.induct)
  case (1 s node ns fs workspaces)
  note add = "1.prems"(2) and all = "1.prems"(1)
  have rec: "list_all P (fold (buildTree s) fs (fold (buildTree s) ns a))"
    if "list_all P a"
       "\<And>x a. x \<in> set ns \<Longrightarrow> list_all P a \<Longrightarrow> list_all P (buildTree s x a)"
       "\<And>x a. x \<in> set fs \<Longrightarrow> list_all P a \<Longrightarrow> list_all P (buildTree s x a)" for a
    using that by (intro fold_inv[where Q="list_all P"]) auto
  let ?t = "json_type node"
  consider (container) "?t = ''root'' \<or> ?t = ''output''"
    | (scratch) "\<not> (?t = ''root'' \<or> ?t = ''output'')" "?t = ''workspace''"
        "take 4 (WorkspaceProperties.title (WorkspaceProperties_fromJson node)) = ''__i3''"
    | (workspace) "\<not> (?t = ''root'' \<or> ?t = ''output'')" "?t = ''workspace''"
        "take 4 (WorkspaceProperties.title (WorkspaceProperties_fromJson node)) \<noteq> ''__i3''"
    | (window) "\<not> (?t = ''root'' \<or> ?t = ''output'')" "?t \<noteq> ''workspace''"
        "?t = ''con'' \<or> ?t = ''floating_con''" "json_app_id node \<noteq> NotMember"
    | (con) "\<not> (?t = ''root'' \<or> ?t = ''output'')" "?t \<noteq> ''workspace''"
        "?t = ''con'' \<or> ?t = ''floating_con''" "\<not> json_app_id node \<noteq> NotMember"
    | (unknown) "\<not> (?t = ''root'' \<or> ?t = ''output'')" "?t \<noteq> ''workspace''"
        "\<not> (?t = ''con'' \<or> ?t = ''floating_con'')"
    by blast
  then show ?case
  proof cases
    case container
    have "list_all P (fold (buildTree s) fs (fold (buildTree s) ns workspaces))"
      using all "1.IH"(1,2)[OF container] add by (intro rec) blast+
    with container show ?thesis by simp
  next
    case scratch
    with all show ?thesis by simp
  next
    case workspace
    have "list_all P (workspaces @ [Workspace_ctor (json_id node) (WorkspaceProperties_fromJson node)])"
      using all ctor[OF workspace(3)] by simp
    then have "list_all P (fold (buildTree s) fs (fold (buildTree s) ns
            (workspaces @ [Workspace_ctor (json_id node) (WorkspaceProperties_fromJson node)])))"
      using "1.IH"(3,4)[OF workspace] add by (intro rec) blast+
    with workspace show ?thesis by simp
  next
    case window
    then show ?thesis
      using all addWindow_back_all[of P s, OF add] by auto
  next
    case con
    have "list_all P (fold (buildTree s) fs (fold (buildTree s) ns workspaces))"
      using all "1.IH"(5,6)[OF con] add by (intro rec) blast+
    with con show ?thesis by simp
  next
    case unknown
    with all show ?thesis by simp
  qed
qed

section \<open>The rebuilt model\<close>

lemmas ex_defs = update_def isort_def payload0_def scratch_node_def blank_def sys0_def
  boot_sys_def registry0_def Workspace_ctor_def Workspace_update_def addWindow_back_def addWindow_def
  Window_ctor_def Window_update_def getResolvedAppId_def findInfo_def lookup_def
  WorkspaceProperties_fromJson_def WindowProperties_fromJson_def get_app_info_from_bamf_env_def
  get_app_info_from_snap_def get_app_info_from_flatpak_def num_less_def tolower_def Let_def

lemma update_set:
  assumes "std_sort_contract srt"
  shows "set (update srt s payload) = Workspace_update ` set (buildTree s payload [])"
proof -
  from assms num_less_swo have "mset (srt num_less (buildTree s payload [])) = mset (buildTree s payload [])"
    unfolding std_sort_contract_def by blast
  then have "set (srt num_less (buildTree s payload [])) = set (buildTree s payload [])"
    by (rule mset_eq_setD)
  then show ?thesis by (simp add: update_def)
qed

lemma Workspace_ctor_fields:
  "Workspace.props (Workspace_ctor i p) = p" "windows (Workspace_ctor i p) = []"
  "content (Workspace_ctor i p) = []" "Workspace.id (Workspace_ctor i p) = i"
  by (simp_all add: Workspace_ctor_def Workspace_update_def)

lemma addWindow_fields:
  "Workspace.props (addWindow s i p w) = Workspace.props w"
  "Workspace.id (addWindow s i p w) = Workspace.id w"
  "windows (addWindow s i p w) = windows w @ [Window_ctor s i p]"
  "content (addWindow s i p w) =
     (if resolved_app_id (Window_ctor s i p) \<in> resolved_app_id ` set (windows w) then content w
      else content w @ [Window_ctor s i p])"
  by (auto simp: addWindow_def Let_def getResolvedAppId_def list_ex_iff) (metis imageI)

lemma keep_first_snoc:
  "keep_first seen (xs @ [x]) =
     keep_first seen xs @
       (if resolved_app_id x \<in> set seen \<union> resolved_app_id ` set xs then [] else [x])"
  by (induction xs arbitrary: seen) auto

lemma keep_first_distinct:
  "distinct (map resolved_app_id (keep_first seen xs)) \<and>
   resolved_app_id ` set (keep_first seen xs) \<inter> set seen = {} \<and>
   set (keep_first seen xs) \<subseteq> set xs"
proof (induction xs arbitrary: seen)
  case Nil
  then show ?case by simp
next
  case (Cons x xs)
  from Cons[of seen] Cons[of "resolved_app_id x # seen"] show ?case by auto
qed

lemma buildTree_content:
  "list_all (\<lambda>w. content w = keep_first [] (windows w)) (buildTree s payload [])"
  by (rule buildTree_all) (simp_all add: Workspace_ctor_fields addWindow_fields keep_first_snoc)

lemma buildTree_title:
  "list_all (\<lambda>w. take 4 (WorkspaceProperties.title (Workspace.props w)) \<noteq> ''__i3'') (buildTree s payload [])"
  by (rule buildTree_all) (simp_all add: Workspace_ctor_fields addWindow_fields)

lemma Window_ctor_id: "Window.id (Window_ctor s i p) = i"
  by (simp add: Window_ctor_def Window_update_def split: option.splits)

lemma buildTree_window_node:
  assumes "json_type node = ''con'' \<or> json_type node = ''floating_con''"
    and "json_app_id node \<noteq> NotMember" and "workspaces \<noteq> []"
  shows "buildTree s (Node node ns fs) workspaces =
           butlast workspaces @
             [addWindow s (json_id node) (WindowProperties_fromJson node) (last workspaces)]"
  using assms by (auto simp: addWindow_back_def)

text \<open>
  C3, as the code has it.  After a rebuild, in every workspace the windows whose button
  was packed into the workspace's box are the first occurrences, in traversal order, of
  each resolved identity among the workspace's windows: no two of them share an
  identity, and every identity of the workspace is shown once.  The window list is not
  deduplicated: \<open>addWindow\<close> appends every window to \<open>windows\<close>, so a window node met
  while a workspace is open adds its window to the last workspace's list whatever its
  identity, and \<open>update()\<close> keeps the list.
\<close>

theorem content_first_occurrence:
  "(std_sort_contract srt \<and> w \<in> set (update srt s payload) \<longrightarrow>
      content w = keep_first [] (windows w) \<and>
      distinct (map resolved_app_id (content w)) \<and>
      set (content w) \<subseteq> set (windows w) \<and>
      resolved_app_id ` set (content w) = resolved_app_id ` set (windows w)) \<and>
   windows (addWindow s i p v) = windows v @ [Window_ctor s i p] \<and>
   ((json_type node = ''con'' \<or> json_type node = ''floating_con'') \<and>
    json_app_id node \<noteq> NotMember \<and> workspaces \<noteq> [] \<longrightarrow>
      map windows (buildTree s (Node node ns fs) workspaces) =
        map windows (butlast workspaces) @
          [windows (last workspaces) @
             [Window_ctor s (json_id node) (WindowProperties_fromJson node)]]) \<and>
   windows (Workspace_update v) = windows v"
proof (intro conjI impI)
  assume a: "std_sort_contract srt \<and> w \<in> set (update srt s payload)"
  then obtain w0 where w0: "w0 \<in> set (buildTree s payload [])" "w = Workspace_update w0"
    by (auto simp: update_set)
  from buildTree_content[of s payload] w0(1)
  have c0: "content w0 = keep_first [] (windows w0)" by (auto simp: list_all_iff)
  with w0(2) have c: "content w = keep_first [] (windows w)"
    by (simp add: Workspace_update_fields)
  have img: "resolved_app_id ` set (keep_first seen xs) \<union> set seen = resolved_app_id ` set xs \<union> set seen"
    for seen xs
  proof (induction xs arbitrary: seen)
    case Nil
    then show ?case by simp
  next
    case (Cons x xs)
    from Cons[of seen] Cons[of "resolved_app_id x # seen"] show ?case
      by (simp add: set_eq_iff) blast
  qed
  from img[of "[]" "windows w"] keep_first_distinct[of "[]" "windows w"] c
  show "content w = keep_first [] (windows w)"
    and "distinct (map resolved_app_id (content w))"
    and "set (content w) \<subseteq> set (windows w)"
    and "resolved_app_id ` set (content w) = resolved_app_id ` set (windows w)"
    by simp_all
next
  show "windows (addWindow s i p v) = windows v @ [Window_ctor s i p]"
    by (rule addWindow_fields)
next
  assume n: "(json_type node = ''con'' \<or> json_type node = ''floating_con'') \<and>
    json_app_id node \<noteq> NotMember \<and> workspaces \<noteq> []"
  then have "buildTree s (Node node ns fs) workspaces =
           butlast workspaces @
             [addWindow s (json_id node) (WindowProperties_fromJson node) (last workspaces)]"
    by (intro buildTree_window_node) blast+
  then show "map windows (buildTree s (Node node ns fs) workspaces) =
        map windows (butlast workspaces) @
          [windows (last workspaces) @
             [Window_ctor s (json_id node) (WindowProperties_fromJson node)]]"
    by (simp add: addWindow_fields)
next
  show "windows (Workspace_update v) = windows v"
    by (rule Workspace_update_fields)
qed

theorem content_first_occurrence_witness:
  "std_sort_contract (isort :: Workspace sort_fn) \<and>
   map (\<lambda>w. (Workspace.id w, map Window.id (windows w), map Window.id (content w)))
     (update isort sys0 payload0) = [(10, [], []), (11, [], []), (6, [7, 8, 9], [7, 9])] \<and>
   list_all (\<lambda>w. distinct (map resolved_app_id (content w))) (update isort sys0 payload0) \<and>
   map (\<lambda>w. map Window.id (windows w))
     (buildTree sys0
        (Node ((blank ''con'' 8 ''Library'')\<lparr>json_app_id := JsonString ''firefox''\<rparr>) [] [])
        (buildTree sys0
           (Node ((blank ''con'' 7 ''Mozilla Firefox'')\<lparr>json_app_id := JsonString ''firefox''\<rparr>) [] [])
           [Workspace_ctor 6 (WorkspaceProperties_fromJson (blank ''workspace'' 6 ''2''))])) =
     [ [7, 8] ]"
proof -
  have "\<forall>w \<in> set (update isort sys0 payload0). distinct (map resolved_app_id (content w))"
    using content_first_occurrence[where srt = isort and s = sys0 and payload = payload0]
      isort_contract by blast
  moreover have "map (\<lambda>w. (Workspace.id w, map Window.id (windows w), map Window.id (content w)))
     (update isort sys0 payload0) = [(10, [], []), (11, [], []), (6, [7, 8, 9], [7, 9])]"
    by (simp add: ex_defs)
  moreover have "map (\<lambda>w. map Window.id (windows w))
     (buildTree sys0 (Node n8 [] []) (buildTree sys0 (Node n7 [] []) [w6])) = [ [7, 8] ]"
    if n7: "n7 = (blank ''con'' 7 ''Mozilla Firefox'')\<lparr>json_app_id := JsonString ''firefox''\<rparr>"
      and n8: "n8 = (blank ''con'' 8 ''Library'')\<lparr>json_app_id := JsonString ''firefox''\<rparr>"
      and w6: "w6 = Workspace_ctor 6 (WorkspaceProperties_fromJson (blank ''workspace'' 6 ''2''))"
    for n7 n8 w6
  proof -
    let ?B7 = "buildTree sys0 (Node n7 [] []) [w6]"
    let ?W7 = "Window_ctor sys0 (json_id n7) (WindowProperties_fromJson n7)"
    let ?W8 = "Window_ctor sys0 (json_id n8) (WindowProperties_fromJson n8)"
    have ids: "json_id n7 = 7" "json_id n8 = 8" "windows w6 = []"
      by (simp_all add: n7 n8 w6 blank_def Workspace_ctor_fields)
    have t7: "(json_type n7 = ''con'' \<or> json_type n7 = ''floating_con'') \<and>
              json_app_id n7 \<noteq> NotMember \<and> [w6] \<noteq> []"
      by (simp add: n7 blank_def)
    from content_first_occurrence[where s = sys0 and node = n7 and workspaces = "[w6]"
        and ns = "[]" and fs = "[]"] t7
    have 1: "map windows ?B7 = [windows w6 @ [?W7]]"
      by (simp del: buildTree.simps)
    then obtain x where x: "?B7 = [x]" "windows x = [?W7]"
      using ids(3) by (cases ?B7) (auto simp del: buildTree.simps)
    have t8: "(json_type n8 = ''con'' \<or> json_type n8 = ''floating_con'') \<and>
              json_app_id n8 \<noteq> NotMember \<and> ?B7 \<noteq> []"
      using x(1) by (simp add: n8 blank_def del: buildTree.simps)
    from content_first_occurrence[where s = sys0 and node = n8 and workspaces = ?B7
        and ns = "[]" and fs = "[]"] t8
    have "map windows (buildTree sys0 (Node n8 [] []) ?B7) =
             map windows (butlast ?B7) @ [windows (last ?B7) @ [?W8]]"
      by blast
    then have "map windows (buildTree sys0 (Node n8 [] []) ?B7) = [ [?W7, ?W8] ]"
      by (simp add: x del: buildTree.simps)
    then have "map (map Window.id) (map windows (buildTree sys0 (Node n8 [] []) ?B7)) =
               [ [7, 8] ]"
      by (simp add: ids Window_ctor_id del: buildTree.simps)
    then show ?thesis by (simp add: comp_def del: buildTree.simps)
  qed
  ultimately show ?thesis using isort_contract by (simp add: list_all_iff)
qed

text \<open>
  The claim fails on the window list itself: in the example snapshot windows 7 and 8 of
  workspace 6 both resolve to \<open>firefox.desktop\<close>, and both are in \<open>windows\<close>.
\<close>

theorem windows_repeated_identity_counterexample:
  "map (\<lambda>w. (Workspace.id w, map (\<lambda>x. (Window.id x, resolved_app_id x)) (windows w)))
     (update isort sys0 payload0) =
     [(10, []), (11, []),
      (6, [(7, ''firefox.desktop''), (8, ''firefox.desktop''), (9, ''chrome-app1-Default.desktop'')])]"
  by (simp add: ex_defs)

text \<open>
  C4, as the code has it.  With any \<open>std::sort\<close> that meets the standard's contract, the
  rebuilt workspaces are sorted by \<open>props.num\<close> ascending and are exactly the updated
  workspaces of the traversal, each once.  Nothing is said of the order of workspaces
  with equal \<open>num\<close>: \<open>std::sort\<close> need not keep it.
\<close>

theorem update_sorted_by_num:
  assumes "std_sort_contract srt"
  shows "sorted (map (\<lambda>w. num (Workspace.props w)) (update srt s payload)) \<and>
         mset (update srt s payload) = image_mset Workspace_update (mset (buildTree s payload []))"
proof -
  let ?b = "buildTree s payload []"
  from assms num_less_swo
  have m: "mset (srt num_less ?b) = mset ?b"
    and st: "sorted_wrt (\<lambda>a b. \<not> num_less b a) (srt num_less ?b)"
    unfolding std_sort_contract_def by blast+
  have "sorted_wrt (\<lambda>a b. num (Workspace.props a) \<le> num (Workspace.props b)) (srt num_less ?b)"
    using st by (simp add: num_less_def not_less)
  then have "sorted (map (\<lambda>w. num (Workspace.props w)) (srt num_less ?b))"
    by (simp add: sorted_wrt_map)
  moreover have "map (\<lambda>w. num (Workspace.props w)) (update srt s payload) =
                 map (\<lambda>w. num (Workspace.props w)) (srt num_less ?b)"
    by (simp add: update_def Workspace_update_props)
  moreover have "mset (update srt s payload) = image_mset Workspace_update (mset ?b)"
    using m by (simp add: update_def)
  ultimately show ?thesis by simp
qed

theorem update_sorted_by_num_witness:
  "std_sort_contract (libstdcxx_sort isort :: Workspace sort_fn) \<and>
   sorted (map (\<lambda>w. num (Workspace.props w)) (update (libstdcxx_sort isort) sys0 payload0)) \<and>
   map (\<lambda>w. (Workspace.id w, num (Workspace.props w)))
     (update (libstdcxx_sort isort) sys0 payload0) = [(10, 1), (11, 1), (6, 2)]"
proof -
  have c: "std_sort_contract (libstdcxx_sort isort :: Workspace sort_fn)"
    by (rule libstdcxx_sort_contract[OF isort_contract])
  have "map (\<lambda>w. (Workspace.id w, num (Workspace.props w)))
     (update (libstdcxx_sort isort) sys0 payload0) = [(10, 1), (11, 1), (6, 2)]"
    by code_simp
  then show ?thesis
    using update_sorted_by_num[OF c, of sys0 payload0] c by simp
qed

text \<open>
  The sort is not stable.  With the \<open>std::sort\<close> of libstdc++ (which meets the contract)
  the seventeen workspaces of the example, all numbered -1 and traversed in the order
  of their ids 21 to 37, come out in another order: the median-of-three pivot and the
  partition of a range longer than 16 exchange equal elements.  The depth limit is not
  reached, so the result does not depend on the heap sort.
\<close>

theorem update_not_stable_counterexample:
  "std_sort_contract (libstdcxx_sort isort :: Workspace sort_fn) \<and>
   map (\<lambda>w. (Workspace.id w, num (Workspace.props w))) (buildTree sys0 payload17 []) =
     [(21, - 1), (22, - 1), (23, - 1), (24, - 1), (25, - 1), (26, - 1), (27, - 1), (28, - 1),
      (29, - 1), (30, - 1), (31, - 1), (32, - 1), (33, - 1), (34, - 1), (35, - 1), (36, - 1),
      (37, - 1)] \<and>
   map (\<lambda>w. (Workspace.id w, num (Workspace.props w)))
     (update (libstdcxx_sort isort) sys0 payload17) =
     [(29, - 1), (37, - 1), (36, - 1), (35, - 1), (34, - 1), (33, - 1), (32, - 1), (31, - 1),
      (30, - 1), (21, - 1), (28, - 1), (27, - 1), (26, - 1), (25, - 1), (24, - 1), (23, - 1),
      (22, - 1)] \<and>
   update (libstdcxx_sort (\<lambda>lt xs. [])) sys0 payload17 =
     update (libstdcxx_sort isort) sys0 payload17"
proof -
  have 1: "map (\<lambda>w. (Workspace.id w, num (Workspace.props w))) (buildTree sys0 payload17 []) =
     [(21, - 1), (22, - 1), (23, - 1), (24, - 1), (25, - 1), (26, - 1), (27, - 1), (28, - 1),
      (29, - 1), (30, - 1), (31, - 1), (32, - 1), (33, - 1), (34, - 1), (35, - 1), (36, - 1),
      (37, - 1)]"
    by code_simp
  have 2: "map (\<lambda>w. (Workspace.id w, num (Workspace.props w)))
     (update (libstdcxx_sort isort) sys0 payload17) =
     [(29, - 1), (37, - 1), (36, - 1), (35, - 1), (34, - 1), (33, - 1), (32, - 1), (31, - 1),
      (30, - 1), (21, - 1), (28, - 1), (27, - 1), (26, - 1), (25, - 1), (24, - 1), (23, - 1),
      (22, - 1)]"
    by code_simp
  have 3: "update (libstdcxx_sort (\<lambda>lt xs. [])) sys0 payload17 =
     update (libstdcxx_sort isort) sys0 payload17"
    by code_simp
  from 1 2 3 libstdcxx_sort_contract[OF isort_contract] show ?thesis by simp
qed
text \<open>
  C5.  \<open>buildTree\<close> on a workspace node whose title begins with \<open>__i3\<close> leaves the
  model as it was, whatever the node's children are: no workspace is added and no
  window of its subtree is attached to any workspace.  No workspace of a rebuilt model
  has such a title.
\<close>

theorem scratchpad_excluded:
  "(json_type node = ''workspace'' \<and> take 4 (json_name node) = ''__i3'' \<longrightarrow>
      buildTree s (Node node ns fs) workspaces = workspaces) \<and>
   (std_sort_contract srt \<longrightarrow>
      list_all (\<lambda>w. take 4 (WorkspaceProperties.title (Workspace.props w)) \<noteq> ''__i3'')
        (update srt s payload))"
proof (intro conjI impI)
  assume "json_type node = ''workspace'' \<and> take 4 (json_name node) = ''__i3''"
  then show "buildTree s (Node node ns fs) workspaces = workspaces"
    by (simp add: WorkspaceProperties_fromJson_def)
next
  assume c: "std_sort_contract srt"
  have "take 4 (WorkspaceProperties.title (Workspace.props w)) \<noteq> ''__i3''"
    if "w \<in> set (update srt s payload)" for w
  proof -
    from that obtain w0 where w0: "w0 \<in> set (buildTree s payload [])" "w = Workspace_update w0"
      by (auto simp: update_set[OF c])
    from buildTree_title[of s payload] w0(1)
    have "take 4 (WorkspaceProperties.title (Workspace.props w0)) \<noteq> ''__i3''"
      by (auto simp: list_all_iff)
    with w0(2) show ?thesis by (simp add: Workspace_update_props)
  qed
  then show "list_all (\<lambda>w. take 4 (WorkspaceProperties.title (Workspace.props w)) \<noteq> ''__i3'')
        (update srt s payload)"
    by (simp add: list_all_iff)
qed

theorem scratchpad_excluded_witness:
  "std_sort_contract (isort :: Workspace sort_fn) \<and>
   buildTree sys0 scratch_node [Workspace_ctor 6 (WorkspaceProperties_fromJson (blank ''workspace'' 6 ''2''))] =
     [Workspace_ctor 6 (WorkspaceProperties_fromJson (blank ''workspace'' 6 ''2''))] \<and>
   map (\<lambda>w. (WorkspaceProperties.title (Workspace.props w), map Window.id (windows w)))
     (update isort sys0 payload0) = [(''1'', []), (''1:mail'', []), (''2'', [7, 8, 9])] \<and>
   list_all (\<lambda>w. take 4 (WorkspaceProperties.title (Workspace.props w)) \<noteq> ''__i3'')
     (update isort sys0 payload0)"
proof -
  have 3: "list_all (\<lambda>w. take 4 (WorkspaceProperties.title (Workspace.props w)) \<noteq> ''__i3'')
     (update isort sys0 payload0)"
    using scratchpad_excluded[where srt = isort and s = sys0 and payload = payload0] isort_contract
    by blast
  have t: "json_type ((blank ''workspace'' 3 ''__i3_scratch'')\<lparr>json_num := - 1\<rparr>) = ''workspace'' \<and>
        take 4 (json_name ((blank ''workspace'' 3 ''__i3_scratch'')\<lparr>json_num := - 1\<rparr>)) = ''__i3''"
    by (simp add: blank_def)
  have 1: "buildTree sys0 scratch_node ws = ws" for ws
    unfolding scratch_node_def
    using scratchpad_excluded[where node = "(blank ''workspace'' 3 ''__i3_scratch'')\<lparr>json_num := - 1\<rparr>"
        and s = sys0 and workspaces = ws] t
    by blast
  have 2: "map (\<lambda>w. (WorkspaceProperties.title (Workspace.props w), map Window.id (windows w)))
     (update isort sys0 payload0) = [(''1'', []), (''1:mail'', []), (''2'', [7, 8, 9])]"
    by (simp add: ex_defs)
  show ?thesis using 1 2 3 isort_contract by simp
qed

text \<open>
  C6.  \<open>Workspace::update()\<close> sets \<open>focused\<close> to the workspace's own value or-ed with
  the \<open>focused\<close> flags of all its windows, and \<open>visible\<close> likewise; a workspace without
  windows is left as it is.  The value \<open>update()\<close> starts from is the one read from the
  snapshot: the constructor and \<open>addWindow\<close> keep \<open>props\<close>.  The rebuilt workspaces are
  the updated workspaces of the traversal.
\<close>

theorem Workspace_update_or_reduces:
  "WorkspaceProperties.focused (Workspace.props (Workspace_update w)) =
     (WorkspaceProperties.focused (Workspace.props w) \<or>
      list_ex (\<lambda>x. WindowProperties.focused (Window.props x)) (windows w)) \<and>
   WorkspaceProperties.visible (Workspace.props (Workspace_update w)) =
     (WorkspaceProperties.visible (Workspace.props w) \<or>
      list_ex (\<lambda>x. WindowProperties.visible (Window.props x)) (windows w)) \<and>
   (windows w = [] \<longrightarrow> Workspace_update w = w) \<and>
   Workspace.props (Workspace_ctor i p) = p \<and>
   Workspace.props (addWindow s j q w) = Workspace.props w \<and>
   (std_sort_contract srt \<longrightarrow>
      set (update srt s payload) = Workspace_update ` set (buildTree s payload []))"
  by (simp add: Workspace_update_props Workspace_ctor_fields addWindow_fields update_set)
     (simp add: Workspace_update_def)

theorem Workspace_update_or_reduces_witness:
  "std_sort_contract (isort :: Workspace sort_fn) \<and>
   map (\<lambda>w. (Workspace.id w, WorkspaceProperties.focused (Workspace.props w),
              WorkspaceProperties.visible (Workspace.props w)))
     (buildTree sys0 payload0 []) = [(6, False, True), (10, False, False), (11, False, False)] \<and>
   map (\<lambda>w. (Workspace.id w, WorkspaceProperties.focused (Workspace.props w),
              WorkspaceProperties.visible (Workspace.props w)))
     (update isort sys0 payload0) = [(10, False, False), (11, False, False), (6, True, True)] \<and>
   set (update isort sys0 payload0) = Workspace_update ` set (buildTree sys0 payload0 []) \<and>
   windows (three_workspaces ! 1) = [] \<and>
   Workspace_update (three_workspaces ! 1) = three_workspaces ! 1"
proof -
  have e: "windows (three_workspaces ! 1) = []"
    by (simp add: three_workspaces_def Workspace_ctor_fields)
  with Workspace_update_or_reduces[where w = "three_workspaces ! 1"]
  have u: "Workspace_update (three_workspaces ! 1) = three_workspaces ! 1" by blast
  have "set (update isort sys0 payload0) = Workspace_update ` set (buildTree sys0 payload0 [])"
    using Workspace_update_or_reduces[where srt = isort and s = sys0 and payload = payload0] isort_contract by blast
  moreover have "map (\<lambda>w. (Workspace.id w, WorkspaceProperties.focused (Workspace.props w),
              WorkspaceProperties.visible (Workspace.props w)))
     (buildTree sys0 payload0 []) = [(6, False, True), (10, False, False), (11, False, False)]"
    by (simp add: ex_defs)
  moreover have "map (\<lambda>w. (Workspace.id w, WorkspaceProperties.focused (Workspace.props w),
              WorkspaceProperties.visible (Workspace.props w)))
     (update isort sys0 payload0) = [(10, False, False), (11, False, False), (6, True, True)]"
    by (simp add: ex_defs)
  ultimately show ?thesis using isort_contract e u by simp
qed

text \<open>
  C7, as the code has it.  \<open>urgent\<close> is not reduced over the windows: the constructor,
  \<open>addWindow\<close> and \<open>update()\<close> all keep the value read from the snapshot.
\<close>

theorem Workspace_urgent_verbatim:
  "WorkspaceProperties.urgent (Workspace.props (Workspace_update w)) =
     WorkspaceProperties.urgent (Workspace.props w) \<and>
   WorkspaceProperties.urgent (Workspace.props (Workspace_ctor i p)) = WorkspaceProperties.urgent p \<and>
   WorkspaceProperties.urgent (Workspace.props (addWindow s j q w)) =
     WorkspaceProperties.urgent (Workspace.props w)"
  by (simp add: Workspace_update_props Workspace_ctor_fields addWindow_fields)

text \<open>
  In the example snapshot workspace 6 is reported not urgent and holds the urgent
  window 7; after the rebuild it is still not urgent.
\<close>

theorem Workspace_urgent_counterexample:
  "map (\<lambda>w. (Workspace.id w, WorkspaceProperties.urgent (Workspace.props w),
              map (\<lambda>x. (Window.id x, WindowProperties.urgent (Window.props x))) (windows w)))
     (update isort sys0 payload0) =
     [(10, False, []), (11, False, []), (6, False, [(7, True), (8, False), (9, False)])]"
  by (simp add: ex_defs)


section \<open>Scrolling through the workspaces\<close>

lemma uint_index_sum:
  "uint (word_of_nat i + word_of_int delta :: 64 word) = (int i + delta) mod 2 ^ 64"
proof -
  have "(word_of_nat i + word_of_int delta :: 64 word) = word_of_int (int i + delta)"
    by simp
  then have "uint (word_of_nat i + word_of_int delta :: 64 word) =
             uint (word_of_int (int i + delta) :: 64 word)"
    by (rule arg_cong)
  also have "\<dots> = (int i + delta) mod 2 ^ LENGTH(64)"
    by (rule uint_word_of_int)
  finally show ?thesis by simp
qed

lemma unat_of_nat_len: "n < 2 ^ 63 \<Longrightarrow> unat (word_of_nat n :: 64 word) = n"
  by (simp add: unat_of_nat)

text \<open>
  C10, as the code has it.  When some workspace is focused and \<open>delta\<close> is 1 or -1, the
  subscript that \<open>cycleWorkspace\<close> computes is the focused index plus \<open>delta\<close>, taken as
  an unsigned 64-bit value, modulo the number of workspaces with the unsigned remainder.
  It is below the number of workspaces, and the workspace at that subscript is
  activated; so also when the first workspace is focused and \<open>delta\<close> is -1, where the
  sum is \<open>2^64 - 1\<close>.  (A vector holds fewer than \<open>2^63\<close> elements.)
\<close>

theorem cycle_index_in_bounds:
  assumes "list_ex (\<lambda>w. WorkspaceProperties.focused (Workspace.props w)) workspaces"
    and "delta = 1 \<or> delta = - 1"
    and "length workspaces < 2 ^ 63"
  shows "cycle_index workspaces delta < length workspaces \<and>
         int (cycle_index workspaces delta) =
           ((int (find_if (\<lambda>w. WorkspaceProperties.focused (Workspace.props w)) workspaces) + delta)
              mod 2 ^ 64) mod int (length workspaces) \<and>
         cycleWorkspace workspaces delta =
           activateWorkspace (num (Workspace.props (workspaces ! cycle_index workspaces delta)))"
proof -
  let ?i = "find_if (\<lambda>w. WorkspaceProperties.focused (Workspace.props w)) workspaces"
  from assms(1) have ne: "workspaces \<noteq> []" by auto
  have len: "unat (word_of_nat (length workspaces) :: 64 word) = length workspaces"
    using assms(3) by (rule unat_of_nat_len)
  have idx: "cycle_index workspaces delta < length workspaces"
    using ne by (simp add: cycle_index_def Let_def unat_mod len)
  have "int (cycle_index workspaces delta) =
          int (unat (word_of_nat ?i + word_of_int delta :: 64 word) mod length workspaces)"
    by (simp only: cycle_index_def Let_def unat_mod len)
  also have "\<dots> = uint (word_of_nat ?i + word_of_int delta :: 64 word) mod int (length workspaces)"
    by (simp add: zmod_int)
  also have "\<dots> = ((int ?i + delta) mod 2 ^ 64) mod int (length workspaces)"
    by (simp only: uint_index_sum)
  finally have val: "int (cycle_index workspaces delta) =
      ((int ?i + delta) mod 2 ^ 64) mod int (length workspaces)" .
  have "?i \<noteq> length workspaces"
  proof
    assume "?i = length workspaces"
    then have "takeWhile (\<lambda>x. \<not> WorkspaceProperties.focused (Workspace.props x)) workspaces
        = workspaces"
      unfolding find_if_def
      by (metis append_eq_conv_conj takeWhile_dropWhile_id take_all_iff order_refl)
    with assms(1) show False
      by (auto simp: list_ex_iff takeWhile_eq_all_conv)
  qed
  with idx val show ?thesis by (simp add: cycleWorkspace_def)
qed

theorem cycle_index_in_bounds_witness:
  "list_ex (\<lambda>w. WorkspaceProperties.focused (Workspace.props w)) three_workspaces \<and>
   find_if (\<lambda>w. WorkspaceProperties.focused (Workspace.props w)) three_workspaces = 0 \<and>
   length three_workspaces < 2 ^ 63 \<and>
   cycle_index three_workspaces (- 1) = 0 \<and>
   cycle_index three_workspaces (- 1) < length three_workspaces \<and>
   int (cycle_index three_workspaces (- 1)) = (2 ^ 64 - 1) mod 3 \<and>
   cycleWorkspace three_workspaces (- 1) =
     activateWorkspace (num (Workspace.props (three_workspaces ! cycle_index three_workspaces (- 1))))"
proof -
  have f: "list_ex (\<lambda>w. WorkspaceProperties.focused (Workspace.props w)) three_workspaces"
    by (simp add: three_workspaces_def Workspace_ctor_fields)
  have z: "find_if (\<lambda>w. WorkspaceProperties.focused (Workspace.props w)) three_workspaces = 0"
    by (simp add: find_if_def three_workspaces_def Workspace_ctor_fields)
  have l: "length three_workspaces < 2 ^ 63" "length three_workspaces = 3"
    by (simp_all add: three_workspaces_def)
  have i: "cycle_index three_workspaces (- 1) = 0"
    by (simp add: cycle_index_def find_if_def three_workspaces_def Workspace_ctor_fields)
  from cycle_index_in_bounds[OF f _ l(1), of "- 1"] f z l i show ?thesis by simp
qed

text \<open>
  The claim's formula is not the one of the code.  With the first of three (or of seven)
  workspaces focused and \<open>delta\<close> -1 the signed remainder is -1, which is no subscript of
  the list, while \<open>cycleWorkspace\<close> computes 0 (or 1).
\<close>

theorem cycle_index_signed_counterexample:
  "find_if (\<lambda>w. WorkspaceProperties.focused (Workspace.props w)) three_workspaces = 0 \<and>
   claimed_index three_workspaces (- 1) = - 1 \<and>
   \<not> (0 \<le> claimed_index three_workspaces (- 1) \<and>
      claimed_index three_workspaces (- 1) < int (length three_workspaces)) \<and>
   int (cycle_index three_workspaces (- 1)) = 0 \<and>
   claimed_index seven_workspaces (- 1) = - 1 \<and>
   int (cycle_index seven_workspaces (- 1)) = 1"
proof -
  have z3: "find_if (\<lambda>w. WorkspaceProperties.focused (Workspace.props w)) three_workspaces = 0"
    by (simp add: find_if_def three_workspaces_def Workspace_ctor_fields)
  have z7: "find_if (\<lambda>w. WorkspaceProperties.focused (Workspace.props w)) seven_workspaces = 0"
    by (simp add: find_if_def seven_workspaces_def Workspace_ctor_fields)
  have l: "length three_workspaces = 3" "length seven_workspaces = 7"
    by (simp_all add: three_workspaces_def seven_workspaces_def)
  have c3: "claimed_index three_workspaces (- 1) = - 1"
    by (simp add: claimed_index_def signed_rem_def z3 l)
  have c7: "claimed_index seven_workspaces (- 1) = - 1"
    by (simp add: claimed_index_def signed_rem_def z7 l)
  have i3: "cycle_index three_workspaces (- 1) = 0"
    by (simp add: cycle_index_def z3 l)
  have i7: "cycle_index seven_workspaces (- 1) = 1"
    by (simp add: cycle_index_def z7 l)
  show ?thesis using z3 c3 c7 i3 i7 l by simp
qed

section \<open>Snapshot requests\<close>

lemma onCmd_tree_requests: "tree_requests (onCmd parse res st) = tree_requests st"
  by (simp add: onCmd_def split: option.splits)

text \<open>
  C9, as the code has it.  \<open>onEvent\<close> calls \<open>getTree()\<close> whatever the state: unless
  \<open>sendCmd\<close> throws, every notification hands one more \<open>IPC_GET_TREE\<close> request to the
  channel, also while a request is unanswered and while a response is being applied.
  The number of unanswered requests then depends on the channel alone: it stays as it
  was when the response is delivered within \<open>sendCmd\<close> and grows by one when the
  response is pending.
\<close>

theorem onEvent_always_requests:
  "(outcome \<noteq> Throws \<longrightarrow>
      tree_requests (onEvent parse outcome res st) = tree_requests st + 1) \<and>
   (outcome = Throws \<longrightarrow> onEvent parse outcome res st = st) \<and>
   (outcome = Pending \<and> tree_replies st \<le> tree_requests st \<longrightarrow>
      in_flight (onEvent parse outcome res st) = in_flight st + 1) \<and>
   (outcome = Replied reply \<and> res_type reply = IPC_GET_TREE \<and>
    tree_replies st \<le> tree_requests st \<longrightarrow>
      in_flight (onEvent parse outcome res st) = in_flight st)"
  by (cases outcome)
     (auto simp: onEvent_def getTree_def sendCmd_def in_flight_def onCmd_def Let_def
        split: option.splits)

theorem onEvent_always_requests_witness:
  "applying (WorkspaceTasksImpl_ctor parse0 (Replied tree_reply)) \<and>
   tree_requests (WorkspaceTasksImpl_ctor parse0 (Replied tree_reply)) = 1 \<and>
   tree_requests
     (onEvent parse0 (Replied tree_reply) window_event
        (WorkspaceTasksImpl_ctor parse0 (Replied tree_reply))) = 2 \<and>
   tree_replies (WorkspaceTasksImpl_ctor parse0 Pending)
     \<le> tree_requests (WorkspaceTasksImpl_ctor parse0 Pending) \<and>
   in_flight (onEvent parse0 Pending window_event (WorkspaceTasksImpl_ctor parse0 Pending)) =
     in_flight (WorkspaceTasksImpl_ctor parse0 Pending) + 1 \<and>
   onEvent parse0 Throws window_event (WorkspaceTasksImpl_ctor parse0 Pending) =
     WorkspaceTasksImpl_ctor parse0 Pending"
proof -
  have a: "applying (WorkspaceTasksImpl_ctor parse0 (Replied tree_reply))"
    "tree_requests (WorkspaceTasksImpl_ctor parse0 (Replied tree_reply)) = 1"
    by (simp_all add: WorkspaceTasksImpl_ctor_def getTree_def sendCmd_def onCmd_def applying_def
        parse0_def tree_reply_def)
  have h: "tree_replies (WorkspaceTasksImpl_ctor parse0 Pending)
             \<le> tree_requests (WorkspaceTasksImpl_ctor parse0 Pending)"
    by (simp add: WorkspaceTasksImpl_ctor_def getTree_def sendCmd_def)
  from onEvent_always_requests[of "Replied tree_reply" parse0 window_event
      "WorkspaceTasksImpl_ctor parse0 (Replied tree_reply)"] a
  have 1: "tree_requests
     (onEvent parse0 (Replied tree_reply) window_event
        (WorkspaceTasksImpl_ctor parse0 (Replied tree_reply))) = 2"
    by simp
  from onEvent_always_requests[of Pending parse0 window_event
      "WorkspaceTasksImpl_ctor parse0 Pending"] h
  have 2: "in_flight (onEvent parse0 Pending window_event (WorkspaceTasksImpl_ctor parse0 Pending)) =
     in_flight (WorkspaceTasksImpl_ctor parse0 Pending) + 1"
    by simp
  from onEvent_always_requests[of Throws parse0 window_event
      "WorkspaceTasksImpl_ctor parse0 Pending"]
  have 3: "onEvent parse0 Throws window_event (WorkspaceTasksImpl_ctor parse0 Pending) =
     WorkspaceTasksImpl_ctor parse0 Pending"
    by simp
  show ?thesis using a h 1 2 3 by simp
qed

text \<open>
  With the response delivered within \<open>sendCmd\<close>: after the constructor the response has
  been parsed and the redisplay requested, \<open>update()\<close> has not run, and a notification
  that arrives then sends a second request.  With the response pending: after the
  constructor one request is unanswered, and a notification that arrives then sends a
  second one.
\<close>

theorem onEvent_duplicate_request_counterexample:
  "applying (WorkspaceTasksImpl_ctor parse0 (Replied tree_reply)) \<and>
   tree_requests (WorkspaceTasksImpl_ctor parse0 (Replied tree_reply)) = 1 \<and>
   tree_requests
     (onEvent parse0 (Replied tree_reply) window_event
        (WorkspaceTasksImpl_ctor parse0 (Replied tree_reply))) = 2 \<and>
   in_flight (WorkspaceTasksImpl_ctor parse0 Pending) = 1 \<and>
   tree_requests (onEvent parse0 Pending window_event (WorkspaceTasksImpl_ctor parse0 Pending)) = 2 \<and>
   in_flight (onEvent parse0 Pending window_event (WorkspaceTasksImpl_ctor parse0 Pending)) = 2"
  by (simp add: WorkspaceTasksImpl_ctor_def onEvent_def getTree_def sendCmd_def onCmd_def
      applying_def in_flight_def parse0_def tree_reply_def)

end
